theory Spec2Isabelle
  imports Complex_Main
begin

section \<open>The persistent store (storage.js)\<close>

text \<open>
  The IndexedDB wrapper keeps two object stores that matter here: \<open>classes\<close> and
  \<open>images\<close>, both keyed by an auto-incremented \<open>id\<close>. A store is modelled as the list of
  its records in key order, which is what \<open>getAll()\<close> returns. The \<open>createdAt\<close> time stamp
  of a record is never read by the program and is left out.

  Every request of the wrapper can fail (\<open>request.onerror\<close> rejects the promise). Whether a
  request fails is decided by the browser, not by the program, so it is an input of the
  model: \<open>fault op\<close> is \<open>Some e\<close> when requests of kind \<open>op\<close> are rejected with error \<open>e\<close>.
  A rejected request aborts its transaction and leaves the store as it was.
\<close>

type_synonym js_error = string

record cls =
  cls_id :: nat
  cls_name :: string

record img =
  img_id :: nat
  img_classId :: nat
  img_data :: string

record db =
  db_classes :: "cls list"
  db_images :: "img list"
  db_next_class :: nat

datatype store_op =
  OpAddClass | OpGetClasses | OpDeleteClassRecord
  | OpGetImagesByClass | OpGetAllImages | OpDeleteImages

type_synonym faults = "store_op \<Rightarrow> js_error option"

definition addClass :: "faults \<Rightarrow> string \<Rightarrow> db \<Rightarrow> (js_error + nat) \<times> db" where
  "addClass fault name d =
     (case fault OpAddClass of
        Some e \<Rightarrow> (Inl e, d)
      | None \<Rightarrow>
          (Inr (db_next_class d),
           d\<lparr>db_classes := db_classes d @ [\<lparr>cls_id = db_next_class d, cls_name = name\<rparr>],
             db_next_class := Suc (db_next_class d)\<rparr>))"

definition getClasses :: "faults \<Rightarrow> db \<Rightarrow> js_error + cls list" where
  "getClasses fault d =
     (case fault OpGetClasses of Some e \<Rightarrow> Inl e | None \<Rightarrow> Inr (db_classes d))"

definition getImagesByClass :: "faults \<Rightarrow> nat \<Rightarrow> db \<Rightarrow> js_error + img list" where
  "getImagesByClass fault classId d =
     (case fault OpGetImagesByClass of
        Some e \<Rightarrow> Inl e
      | None \<Rightarrow> Inr (filter (\<lambda>i. img_classId i = classId) (db_images d)))"

definition getAllImages :: "faults \<Rightarrow> db \<Rightarrow> js_error + img list" where
  "getAllImages fault d =
     (case fault OpGetAllImages of Some e \<Rightarrow> Inl e | None \<Rightarrow> Inr (db_images d))"

text \<open>
  \<open>deleteImagesByClass\<close> reads the images of the class through the \<open>classId\<close> index and then
  issues one \<open>store.delete(img.id)\<close> per image, all in one read-write transaction, and
  waits for all of them. Deletion is by primary key.
\<close>

definition deleteImagesByClass :: "faults \<Rightarrow> nat \<Rightarrow> db \<Rightarrow> (js_error + bool list) \<times> db" where
  "deleteImagesByClass fault classId d =
     (case getImagesByClass fault classId d of
        Inl e \<Rightarrow> (Inl e, d)
      | Inr images \<Rightarrow>
          (case fault OpDeleteImages of
             Some e \<Rightarrow> (Inl e, d)
           | None \<Rightarrow>
               (Inr (map (\<lambda>_. True) images),
                d\<lparr>db_images :=
                    filter (\<lambda>i. img_id i \<notin> set (map img_id images)) (db_images d)\<rparr>)))"

text \<open>
  \<open>deleteClass\<close> awaits \<open>deleteImagesByClass\<close> first and only then opens a second
  transaction that deletes the class record.
\<close>

definition deleteClass :: "faults \<Rightarrow> nat \<Rightarrow> db \<Rightarrow> (js_error + bool) \<times> db" where
  "deleteClass fault ident d =
     (case deleteImagesByClass fault ident d of
        (Inl e, d1) \<Rightarrow> (Inl e, d1)
      | (Inr _, d1) \<Rightarrow>
          (case fault OpDeleteClassRecord of
             Some e \<Rightarrow> (Inl e, d1)
           | None \<Rightarrow>
               (Inr True,
                d1\<lparr>db_classes := filter (\<lambda>c. cls_id c \<noteq> ident) (db_classes d1)\<rparr>)))"

text \<open>
  \<open>getDataSummary\<close>: \<open>classCounts\<close> is a JavaScript object keyed by class id; it gets the
  key of every class with value 0, and an image bumps the entry of its \<open>classId\<close> only when
  that entry is defined.
\<close>

record summary =
  numClasses :: nat
  totalImages :: nat
  classCounts :: "nat \<rightharpoonup> nat"
  classes :: "cls list"

definition init_counts :: "cls list \<Rightarrow> (nat \<rightharpoonup> nat)" where
  "init_counts cs = fold (\<lambda>c m. m(cls_id c \<mapsto> 0)) cs Map.empty"

definition count_image :: "img \<Rightarrow> (nat \<rightharpoonup> nat) \<Rightarrow> (nat \<rightharpoonup> nat)" where
  "count_image i m =
     (case m (img_classId i) of None \<Rightarrow> m | Some n \<Rightarrow> m(img_classId i \<mapsto> Suc n))"

definition getDataSummary :: "faults \<Rightarrow> db \<Rightarrow> js_error + summary" where
  "getDataSummary fault d =
     (case getClasses fault d of
        Inl e \<Rightarrow> Inl e
      | Inr cs \<Rightarrow>
          (case getAllImages fault d of
             Inl e \<Rightarrow> Inl e
           | Inr images \<Rightarrow>
               Inr \<lparr>numClasses = length cs,
                    totalImages = length images,
                    classCounts = fold count_image images (init_counts cs),
                    classes = cs\<rparr>))"


section \<open>Application and controller state (app.js, model.js)\<close>

text \<open>
  One record holds everything the handlers and the training loop read or write: the
  \<open>ModelManager\<close> flags (\<open>isTraining\<close>, \<open>isPaused\<close>, \<open>shouldStop\<close>, \<open>currentEpoch\<close>), the
  \<open>state\<close> object of app.js (\<open>state.classes\<close>, \<open>state.isTraining\<close>, \<open>state.isPaused\<close>) and
  the store. The tensors \<open>trainingData.xs\<close> and \<open>trainingData.ys\<close> are represented by
  counters: \<open>allocated\<close> counts the tensor pairs made by \<open>prepareTrainingData\<close>,
  \<open>xs_disposed\<close> and \<open>ys_disposed\<close> count the calls of \<open>dispose()\<close>. Two logs record what
  an observer sees, in order: \<open>trace\<close> (calls of the controller's methods, calls of
  \<open>model.fit\<close>, callback invocations) and \<open>toasts\<close> (the messages of \<open>showToast\<close>).
  Chart and DOM updates are not modelled.
\<close>

datatype action = PauseTraining | ResumeTraining | StopTraining

record logs =
  loss :: real
  acc :: real
  val_loss :: "real option"
  val_acc :: "real option"

datatype event =
  Called action
  | FitCall nat bool bool
  | EpochEnd nat nat logs
  | TrainingEnd bool
  | TrainingError js_error

datatype toast_kind = ToastInfo | ToastSuccess | ToastWarning | ToastError

record world =
  isTraining :: bool
  isPaused :: bool
  shouldStop :: bool
  currentEpoch :: nat
  state_classes :: "cls list"
  state_isTraining :: bool
  state_isPaused :: bool
  store :: db
  allocated :: nat
  xs_disposed :: nat
  ys_disposed :: nat
  trace :: "event list"
  toasts :: "(string \<times> toast_kind) list"

definition emit :: "event \<Rightarrow> world \<Rightarrow> world" where
  "emit e w = w\<lparr>trace := trace w @ [e]\<rparr>"

definition showToast :: "string \<Rightarrow> toast_kind \<Rightarrow> world \<Rightarrow> world" where
  "showToast message kind w = w\<lparr>toasts := toasts w @ [(message, kind)]\<rparr>"

subsection \<open>Class management\<close>

text \<open>
  \<open>handleAddClass\<close> reads the text field (\<open>raw\<close>), trims it and compares it with the names
  in \<open>state.classes\<close> after \<open>toLowerCase()\<close>. The two string built-ins are parameters of the
  model, so that nothing is assumed about which characters they touch.
\<close>

definition handleAddClass ::
  "(string \<Rightarrow> string) \<Rightarrow> (string \<Rightarrow> string) \<Rightarrow> faults \<Rightarrow> string \<Rightarrow> world \<Rightarrow> world" where
  "handleAddClass trim toLowerCase fault raw w =
     (let name = trim raw in
      if name = [] then showToast ''Please enter a class name'' ToastWarning w
      else if list_ex (\<lambda>c. toLowerCase (cls_name c) = toLowerCase name) (state_classes w)
      then showToast ''A class with this name already exists'' ToastWarning w
      else
        (case addClass fault name (store w) of
           (Inl e, d) \<Rightarrow> showToast ''Failed to add class'' ToastError (w\<lparr>store := d\<rparr>)
         | (Inr ident, d) \<Rightarrow>
             showToast (''Class '' @ [CHR 0x22] @ name @ [CHR 0x22] @ '' added successfully'')
               ToastSuccess
               (w\<lparr>store := d,
                  state_classes := state_classes w @ [\<lparr>cls_id = ident, cls_name = name\<rparr>]\<rparr>)))"

subsection \<open>The training controller\<close>

definition pauseTraining :: "world \<Rightarrow> world" where
  "pauseTraining w = w\<lparr>isPaused := True\<rparr>"

definition resumeTraining :: "world \<Rightarrow> world" where
  "resumeTraining w = w\<lparr>isPaused := False\<rparr>"

definition stopTraining :: "world \<Rightarrow> world" where
  "stopTraining w = w\<lparr>shouldStop := True, isPaused := False\<rparr>"

text \<open>
  \<open>train\<close> is an async function: while it is suspended in an \<open>await\<close>, other code may call
  the three methods above. A schedule gives, for each \<open>await\<close> that the run reaches in turn
  (model creation, one 100 ms sleep of the pause loop, one \<open>model.fit\<close>), the calls that
  arrive during it. After the last entry of the schedule nobody calls the controller
  again.
\<close>

fun perform :: "action \<Rightarrow> world \<Rightarrow> world" where
  "perform PauseTraining w = pauseTraining (emit (Called PauseTraining) w)"
| "perform ResumeTraining w = resumeTraining (emit (Called ResumeTraining) w)"
| "perform StopTraining w = stopTraining (emit (Called StopTraining) w)"

definition perform_all :: "action list \<Rightarrow> world \<Rightarrow> world" where
  "perform_all as w = fold perform as w"

fun next_tick :: "action list list \<Rightarrow> action list \<times> action list list" where
  "next_tick [] = ([], [])"
| "next_tick (as # sched) = (as, sched)"

text \<open>
  The pause loop \<open>while (this.isPaused && !this.shouldStop) await sleep(100)\<close>. The first
  component of the result is \<open>True\<close> when the loop never ends: the flags say "paused, not
  stopped" and the schedule is exhausted, so no later check can find them changed.
\<close>

fun wait_paused :: "action list list \<Rightarrow> world \<Rightarrow> bool \<times> action list list \<times> world" where
  "wait_paused [] w = (isPaused w \<and> \<not> shouldStop w, [], w)"
| "wait_paused (as # sched) w =
     (if isPaused w \<and> \<not> shouldStop w then wait_paused sched (perform_all as w)
      else (False, as # sched, w))"

record params =
  learningRate :: real
  batchSize :: nat
  epochs :: nat
  architecture :: string

text \<open>
  The callbacks object. Each callback is optional (\<open>if (callbacks.onEpochEnd)\<close>).
  \<open>onBatchEnd\<close> is called from inside \<open>model.fit\<close>, writes one DOM text and is left out.
\<close>

record callbacks =
  onEpochEnd :: "(nat \<Rightarrow> nat \<Rightarrow> logs \<Rightarrow> world \<Rightarrow> world) option"
  onTrainingEnd :: "(bool \<Rightarrow> world \<Rightarrow> world) option"
  onTrainingError :: "(js_error \<Rightarrow> world \<Rightarrow> world) option"

definition call_onEpochEnd :: "callbacks \<Rightarrow> nat \<Rightarrow> nat \<Rightarrow> logs \<Rightarrow> world \<Rightarrow> world" where
  "call_onEpochEnd cb epoch totalEpochs lg w =
     (case onEpochEnd cb of None \<Rightarrow> w | Some f \<Rightarrow> f epoch totalEpochs lg
                     (emit (EpochEnd epoch totalEpochs lg) w))"

definition call_onTrainingEnd :: "callbacks \<Rightarrow> bool \<Rightarrow> world \<Rightarrow> world" where
  "call_onTrainingEnd cb completed w =
     (case onTrainingEnd cb of None \<Rightarrow> w | Some f \<Rightarrow> f completed (emit (TrainingEnd completed) w))"

definition call_onTrainingError :: "callbacks \<Rightarrow> js_error \<Rightarrow> world \<Rightarrow> world" where
  "call_onTrainingError cb err w =
     (case onTrainingError cb of None \<Rightarrow> w | Some f \<Rightarrow> f err (emit (TrainingError err) w))"

text \<open>
  The epoch loop of \<open>train\<close>. \<open>fit epoch\<close> is what the call of \<open>model.fit\<close> for that epoch
  does: it throws (\<open>Inl\<close>) or returns the first entries of its history (\<open>Inr\<close>). The event
  \<open>FitCall epoch p s\<close> records the flags \<open>isPaused\<close> and \<open>shouldStop\<close> at the moment of the
  call. The loop ends by leaving the \<open>for\<close> statement (\<open>Exited\<close>), by an exception
  (\<open>Thrown\<close>) or never (\<open>Parked\<close> in the pause loop).
\<close>

datatype loop_exit = Exited | Thrown js_error | Parked

function epoch_loop ::
  "callbacks \<Rightarrow> (nat \<Rightarrow> js_error + logs) \<Rightarrow> nat \<Rightarrow> nat \<Rightarrow> action list list \<Rightarrow> world
   \<Rightarrow> loop_exit \<times> world" where
  "epoch_loop cb fit totalEpochs epoch sched w =
     (if epoch < totalEpochs \<and> \<not> shouldStop w then
        (case wait_paused sched (w\<lparr>currentEpoch := epoch\<rparr>) of
           (True, _, w1) \<Rightarrow> (Parked, w1)
         | (False, sched1, w1) \<Rightarrow>
             if shouldStop w1 then (Exited, w1)
             else
               (let w2 = perform_all (fst (next_tick sched1))
                           (emit (FitCall epoch (isPaused w1) (shouldStop w1)) w1)
                in case fit epoch of
                     Inl err \<Rightarrow> (Thrown err, w2)
                   | Inr lg \<Rightarrow>
                       epoch_loop cb fit totalEpochs (Suc epoch) (snd (next_tick sched1))
                         (call_onEpochEnd cb epoch totalEpochs lg w2)))
      else (Exited, w))"
  by pat_completeness auto
termination
  by (relation "measure (\<lambda>(cb, fit, totalEpochs, epoch, sched, w). totalEpochs - epoch)") auto

declare epoch_loop.simps [simp del]

datatype outcome = Returned bool | Threw js_error | Waiting

definition train_catch :: "callbacks \<Rightarrow> js_error \<Rightarrow> world \<Rightarrow> outcome \<times> world" where
  "train_catch cb err w = (Threw err, call_onTrainingError cb err (w\<lparr>isTraining := False\<rparr>))"

text \<open>
  \<open>train\<close>. \<open>build\<close> is the outcome of \<open>createModel\<close> and \<open>compileModel\<close>: \<open>Some e\<close> when one
  of them throws. The result is how the call ends: it returns \<open>!this.shouldStop\<close>, it
  rethrows, or it waits in the pause loop for ever.
\<close>

definition train ::
  "callbacks \<Rightarrow> js_error option \<Rightarrow> (nat \<Rightarrow> js_error + logs) \<Rightarrow> params \<Rightarrow> action list list
   \<Rightarrow> world \<Rightarrow> outcome \<times> world" where
  "train cb build fit ps sched w0 =
     (let w1 = w0\<lparr>isTraining := True, isPaused := False, shouldStop := False,
                   currentEpoch := 0\<rparr>;
          w2 = perform_all (fst (next_tick sched)) w1
      in case build of
           Some err \<Rightarrow> train_catch cb err w2
         | None \<Rightarrow>
             (case epoch_loop cb fit (epochs ps) 0 (snd (next_tick sched)) w2 of
                (Parked, w3) \<Rightarrow> (Waiting, w3)
              | (Thrown err, w3) \<Rightarrow> train_catch cb err w3
              | (Exited, w3) \<Rightarrow>
                  (let w4 = call_onTrainingEnd cb (\<not> shouldStop w3) (w3\<lparr>isTraining := False\<rparr>)
                   in (Returned (\<not> shouldStop w4), w4))))"

subsection \<open>Starting a training run (handleStartTraining)\<close>

definition dispose_tensors :: "world \<Rightarrow> world" where
  "dispose_tensors w =
     w\<lparr>xs_disposed := Suc (xs_disposed w), ys_disposed := Suc (ys_disposed w)\<rparr>"

definition app_onEpochEnd :: "nat \<Rightarrow> nat \<Rightarrow> logs \<Rightarrow> world \<Rightarrow> world" where
  "app_onEpochEnd epoch totalEpochs lg w = w"

definition app_onTrainingEnd :: "bool \<Rightarrow> world \<Rightarrow> world" where
  "app_onTrainingEnd completed w =
     (let w1 = dispose_tensors (w\<lparr>state_isTraining := False\<rparr>)
      in if completed then showToast ''Training completed successfully!'' ToastSuccess w1
         else showToast ''Training stopped'' ToastWarning w1)"

definition app_onTrainingError :: "js_error \<Rightarrow> world \<Rightarrow> world" where
  "app_onTrainingError err w =
     showToast (''Training failed: '' @ err) ToastError
       (dispose_tensors (w\<lparr>state_isTraining := False\<rparr>))"

definition app_callbacks :: callbacks where
  "app_callbacks =
     \<lparr>onEpochEnd = Some app_onEpochEnd,
      onTrainingEnd = Some app_onTrainingEnd,
      onTrainingError = Some app_onTrainingError\<rparr>"

text \<open>
  The object \<open>classesWithImages\<close>: one entry per class of \<open>state.classes\<close> that has at least
  one stored image.
\<close>

fun classesWithImages ::
  "faults \<Rightarrow> db \<Rightarrow> cls list \<Rightarrow> js_error + (nat \<times> string \<times> img list) list" where
  "classesWithImages fault d [] = Inr []"
| "classesWithImages fault d (c # cs) =
     (case getImagesByClass fault (cls_id c) d of
        Inl e \<Rightarrow> Inl e
      | Inr images \<Rightarrow>
          (case classesWithImages fault d cs of
             Inl e \<Rightarrow> Inl e
           | Inr rest \<Rightarrow>
               Inr (if images \<noteq> [] then (cls_id c, cls_name c, images) # rest else rest)))"

text \<open>
  \<open>handleStartTraining\<close>. \<open>prepare\<close> stands for \<open>modelManager.prepareTrainingData\<close>, which
  decodes the images and builds the tensors with TensorFlow.js: it throws or returns the
  number of classes. The first component of the result names the way the handler ends:
  the guard on \<open>state.isTraining\<close> (\<open>Ignored\<close>), one of the two validation warnings
  (\<open>Rejected\<close>), the \<open>catch\<close> block before a run was started (\<open>StartFailed\<close>), or a run of
  \<open>train\<close> with its outcome (\<open>Session\<close>).
\<close>

datatype start_exit = Ignored | Rejected | StartFailed js_error | Session outcome

definition start_catch :: "js_error \<Rightarrow> world \<Rightarrow> world" where
  "start_catch err w =
     showToast (''Failed to start training: '' @ err) ToastError (w\<lparr>state_isTraining := False\<rparr>)"

definition handleStartTraining ::
  "faults \<Rightarrow> ((nat \<times> string \<times> img list) list \<Rightarrow> js_error + nat) \<Rightarrow> js_error option
   \<Rightarrow> (nat \<Rightarrow> js_error + logs) \<Rightarrow> params \<Rightarrow> action list list \<Rightarrow> world
   \<Rightarrow> start_exit \<times> world" where
  "handleStartTraining fault prepare build fit ps sched w =
     (if state_isTraining w then (Ignored, w)
      else
        (case getDataSummary fault (store w) of
           Inl e \<Rightarrow> (StartFailed e, start_catch e w)
         | Inr s \<Rightarrow>
             if numClasses s < 2
             then (Rejected, showToast ''You need at least 2 classes to train'' ToastWarning w)
             else if totalImages s < 4
             then (Rejected, showToast ''You need at least 4 images to train'' ToastWarning w)
             else
               (case classesWithImages fault (store w) (state_classes w) of
                  Inl e \<Rightarrow> (StartFailed e, start_catch e w)
                | Inr cwi \<Rightarrow>
                    (let w1 = showToast ''Preparing training data...'' ToastInfo w
                     in case prepare cwi of
                          Inl e \<Rightarrow> (StartFailed e, start_catch e w1)
                        | Inr n \<Rightarrow>
                            (let w2 = w1\<lparr>allocated := Suc (allocated w1)\<rparr>;
                                 w3 = w2\<lparr>state_isTraining := True, state_isPaused := False\<rparr>
                             in case train app_callbacks build fit ps sched w3 of
                                  (Threw e, w4) \<Rightarrow> (Session (Threw e), start_catch e w4)
                                | (out, w4) \<Rightarrow> (Session out, w4))))))"

section \<open>Observations and environments\<close>

text \<open>
  Functions that read a trace: the epochs for which \<open>model.fit\<close> was called, the callback
  invocations, and the test that after a call of \<open>stopTraining\<close> no \<open>model.fit\<close> is called
  and at most one \<open>onEpochEnd\<close> follows. \<open>frame\<close> relates two states that differ at most in
  the pause flag, the stop flag, the epoch index and the trace.
\<close>

fun fit_epochs :: "event list \<Rightarrow> nat list" where
  "fit_epochs [] = []"
| "fit_epochs (FitCall ep p s # es) = ep # fit_epochs es"
| "fit_epochs (e # es) = fit_epochs es"

fun is_EpochEnd :: "event \<Rightarrow> bool" where
  "is_EpochEnd (EpochEnd ep n lg) = True"
| "is_EpochEnd e = False"

fun is_callback :: "event \<Rightarrow> bool" where
  "is_callback (EpochEnd ep n lg) = True"
| "is_callback (TrainingEnd b) = True"
| "is_callback (TrainingError e) = True"
| "is_callback e = False"

fun quiet_after_stop :: "event list \<Rightarrow> bool" where
  "quiet_after_stop [] = True"
| "quiet_after_stop (e # es) =
     (if e = Called StopTraining
      then fit_epochs es = [] \<and> length (filter is_EpochEnd es) \<le> 1
      else quiet_after_stop es)"

definition frame :: "world \<Rightarrow> world \<Rightarrow> bool" where
  "frame w w' \<longleftrightarrow>
     isTraining w' = isTraining w \<and> state_classes w' = state_classes w
     \<and> state_isTraining w' = state_isTraining w \<and> state_isPaused w' = state_isPaused w
     \<and> store w' = store w \<and> allocated w' = allocated w \<and> xs_disposed w' = xs_disposed w
     \<and> ys_disposed w' = ys_disposed w \<and> toasts w' = toasts w"

text \<open>
  The state of a freshly loaded page: the field initialisers of the \<open>ModelManager\<close>
  constructor and of the \<open>state\<close> object, an empty store whose key generator starts at 1,
  and empty logs.
\<close>

definition initial_world :: world where
  "initial_world =
     \<lparr>isTraining = False, isPaused = False, shouldStop = False, currentEpoch = 0,
      state_classes = [], state_isTraining = False, state_isPaused = False,
      store = \<lparr>db_classes = [], db_images = [], db_next_class = 1\<rparr>,
      allocated = 0, xs_disposed = 0, ys_disposed = 0, trace = [], toasts = []\<rparr>"

text \<open>
  Environments for the examples: a store that never fails or fails on one kind of
  request, a \<open>model.fit\<close> that always succeeds or throws in one epoch, a
  \<open>prepareTrainingData\<close> that succeeds (it returns \<open>classLabels.length\<close>), and the two
  string built-ins restricted to ASCII.
\<close>

definition no_faults :: faults where
  "no_faults op = None"

definition failing :: "store_op \<Rightarrow> js_error \<Rightarrow> faults" where
  "failing bad e op = (if op = bad then Some e else None)"

definition fit_ok :: "logs \<Rightarrow> nat \<Rightarrow> js_error + logs" where
  "fit_ok lg epoch = Inr lg"

definition fit_throws_at :: "nat \<Rightarrow> js_error \<Rightarrow> logs \<Rightarrow> nat \<Rightarrow> js_error + logs" where
  "fit_throws_at bad e lg epoch = (if epoch = bad then Inl e else Inr lg)"

definition prepare_ok :: "(nat \<times> string \<times> img list) list \<Rightarrow> js_error + nat" where
  "prepare_ok cwi = Inr (length cwi)"

definition ascii_toLowerCase :: "string \<Rightarrow> string" where
  "ascii_toLowerCase s =
     map (\<lambda>c. if 65 \<le> (of_char c :: nat) \<and> (of_char c :: nat) \<le> 90
               then char_of (of_char c + 32 :: nat) else c) s"

definition is_space :: "char \<Rightarrow> bool" where
  "is_space c \<longleftrightarrow> (of_char c :: nat) \<in> {9, 10, 11, 12, 13, 32}"

definition ascii_trim :: "string \<Rightarrow> string" where
  "ascii_trim s = rev (dropWhile is_space (rev (dropWhile is_space s)))"

definition sample_logs :: logs where
  "sample_logs = \<lparr>loss = 1, acc = 0, val_loss = None, val_acc = None\<rparr>"

definition sample_params :: params where
  "sample_params =
     \<lparr>learningRate = 1 / 1000, batchSize = 16, epochs = 3, architecture = ''simple''\<rparr>"

text \<open>Two classes with two images each, and the same classes with four orphaned images.\<close>

definition sample_db :: db where
  "sample_db =
     \<lparr>db_classes = [\<lparr>cls_id = 1, cls_name = ''cat''\<rparr>, \<lparr>cls_id = 2, cls_name = ''dog''\<rparr>],
      db_images =
        [\<lparr>img_id = 1, img_classId = 1, img_data = ''a''\<rparr>,
         \<lparr>img_id = 2, img_classId = 1, img_data = ''b''\<rparr>,
         \<lparr>img_id = 3, img_classId = 2, img_data = ''c''\<rparr>,
         \<lparr>img_id = 4, img_classId = 2, img_data = ''d''\<rparr>],
      db_next_class = 3\<rparr>"

definition orphan_db :: db where
  "orphan_db =
     \<lparr>db_classes = [\<lparr>cls_id = 1, cls_name = ''cat''\<rparr>, \<lparr>cls_id = 2, cls_name = ''dog''\<rparr>],
      db_images =
        [\<lparr>img_id = 1, img_classId = 7, img_data = ''a''\<rparr>,
         \<lparr>img_id = 2, img_classId = 7, img_data = ''b''\<rparr>,
         \<lparr>img_id = 3, img_classId = 7, img_data = ''c''\<rparr>,
         \<lparr>img_id = 4, img_classId = 7, img_data = ''d''\<rparr>],
      db_next_class = 3\<rparr>"

definition ready_world :: world where
  "ready_world = initial_world\<lparr>state_classes := db_classes sample_db, store := sample_db\<rparr>"

definition orphan_world :: world where
  "orphan_world = initial_world\<lparr>state_classes := db_classes orphan_db, store := orphan_db\<rparr>"

text \<open>A session that is running and paused in its second epoch.\<close>

definition paused_session :: world where
  "paused_session =
     ready_world\<lparr>isTraining := True, isPaused := True, currentEpoch := 1,
       state_isTraining := True, state_isPaused := True, allocated := 1\<rparr>"


section \<open>Lemmas about the store\<close>

lemma init_counts_lookup:
  "fold (\<lambda>c m. m(cls_id c \<mapsto> 0)) cs m0 k = (if k \<in> cls_id ` set cs then Some 0 else m0 k)"
  by (induction cs arbitrary: m0) auto

lemma count_image_fold:
  "fold count_image imgs m k =
     (case m k of
        None \<Rightarrow> None
      | Some n \<Rightarrow> Some (n + length (filter (\<lambda>i. img_classId i = k) imgs)))"
  by (induction imgs arbitrary: m) (auto simp: count_image_def split: option.splits)


section \<open>Lemmas about the training loop\<close>

lemma fit_epochs_append [simp]: "fit_epochs (xs @ ys) = fit_epochs xs @ fit_epochs ys"
  by (induction xs rule: fit_epochs.induct) auto

lemma fit_epochs_Called [simp]: "fit_epochs (map Called cs) = []"
  by (induction cs) auto

lemma filter_EpochEnd_Called [simp]: "filter is_EpochEnd (map Called cs) = []"
  by (induction cs) auto

lemma filter_callback_Called [simp]: "filter is_callback (map Called cs) = []"
  by (induction cs) auto

lemma quiet_if_silent:
  "fit_epochs es = [] \<Longrightarrow> length (filter is_EpochEnd es) \<le> 1 \<Longrightarrow> quiet_after_stop es"
proof (induction es)
  case Nil
  then show ?case by simp
next
  case (Cons e es)
  then show ?case by (cases e) (auto split: if_splits)
qed

lemma quiet_skip:
  "Called StopTraining \<notin> set xs \<Longrightarrow> quiet_after_stop (xs @ ys) = quiet_after_stop ys"
  by (induction xs) auto

lemma quiet_after_any_stop:
  "quiet_after_stop (pre @ Called StopTraining # post) \<Longrightarrow>
   fit_epochs post = [] \<and> length (filter is_EpochEnd post) \<le> 1"
proof (induction pre)
  case Nil
  then show ?case by simp
next
  case (Cons e pre)
  show ?case
  proof (cases "e = Called StopTraining")
    case True
    with Cons.prems have "fit_epochs (pre @ Called StopTraining # post) = []"
      and "length (filter is_EpochEnd (pre @ Called StopTraining # post)) \<le> 1" by auto
    then show ?thesis by auto
  next
    case False
    with Cons show ?thesis by auto
  qed
qed

lemma perform_fields [simp]:
  "trace (perform a w) = trace w @ [Called a]"
  "shouldStop (perform a w) = (shouldStop w \<or> a = StopTraining)"
  "frame w (perform a w)"
  "currentEpoch (perform a w) = currentEpoch w"
  by (cases a; simp add: pauseTraining_def resumeTraining_def stopTraining_def emit_def frame_def)+

lemma frame_refl [simp]: "frame w w"
  by (simp add: frame_def)

lemma frame_trans: "frame a b \<Longrightarrow> frame b c \<Longrightarrow> frame a c"
  by (simp add: frame_def)

lemma perform_all_Nil [simp]: "perform_all [] w = w"
  by (simp add: perform_all_def)

lemma perform_all_append: "perform_all (as @ bs) w = perform_all bs (perform_all as w)"
  by (simp add: perform_all_def)

lemma perform_all_trace [simp]: "trace (perform_all as w) = trace w @ map Called as"
  by (induction as arbitrary: w) (auto simp: perform_all_def)

lemma perform_all_stop [simp]:
  "shouldStop (perform_all as w) = (shouldStop w \<or> StopTraining \<in> set as)"
  by (induction as arbitrary: w) (auto simp: perform_all_def)

lemma perform_all_frame [simp]: "frame w (perform_all as w)"
proof (induction as arbitrary: w)
  case Nil
  then show ?case by simp
next
  case (Cons a as)
  have "frame w (perform a w)" by simp
  moreover have "frame (perform a w) (perform_all as (perform a w))" by (rule Cons.IH)
  ultimately show ?case by (simp add: perform_all_def frame_def)
qed

lemma wait_paused_spec:
  "wait_paused sched w = (p, sched1, w1) \<Longrightarrow>
   \<exists>cs. w1 = perform_all cs w \<and> (p \<longleftrightarrow> isPaused w1 \<and> \<not> shouldStop w1)"
proof (induction sched arbitrary: w)
  case Nil
  then have "w1 = perform_all [] w" and "p \<longleftrightarrow> isPaused w1 \<and> \<not> shouldStop w1" by auto
  then show ?case by blast
next
  case (Cons as sched)
  show ?case
  proof (cases "isPaused w \<and> \<not> shouldStop w")
    case True
    with Cons.prems have "wait_paused sched (perform_all as w) = (p, sched1, w1)" by simp
    from Cons.IH [OF this] obtain cs where
      "w1 = perform_all cs (perform_all as w)" and "p \<longleftrightarrow> isPaused w1 \<and> \<not> shouldStop w1" by blast
    then have "w1 = perform_all (as @ cs) w" by (simp add: perform_all_append)
    with \<open>p \<longleftrightarrow> isPaused w1 \<and> \<not> shouldStop w1\<close> show ?thesis by blast
  next
    case False
    with Cons.prems have "w1 = perform_all [] w" and "\<not> p" and "w1 = w" by auto
    with False show ?thesis by (metis)
  qed
qed

lemma epoch_loop_done:
  "\<not> (ep < n \<and> \<not> shouldStop w) \<Longrightarrow> epoch_loop cb fit n ep sched w = (Exited, w)"
  by (subst epoch_loop.simps) auto

lemma epoch_loop_step:
  "ep < n \<Longrightarrow> \<not> shouldStop w \<Longrightarrow> wait_paused sched (w\<lparr>currentEpoch := ep\<rparr>) = (p, sched1, w1) \<Longrightarrow>
   epoch_loop cb fit n ep sched w =
     (if p then (Parked, w1)
      else if shouldStop w1 then (Exited, w1)
      else (case fit ep of
              Inl err \<Rightarrow> (Thrown err, perform_all (fst (next_tick sched1))
                           (emit (FitCall ep (isPaused w1) (shouldStop w1)) w1))
            | Inr lg \<Rightarrow> epoch_loop cb fit n (Suc ep) (snd (next_tick sched1))
                 (call_onEpochEnd cb ep n lg (perform_all (fst (next_tick sched1))
                           (emit (FitCall ep (isPaused w1) (shouldStop w1)) w1)))))"
  by (subst epoch_loop.simps) (auto simp: Let_def split: sum.splits)

lemma call_onEpochEnd_app [simp]:
  "call_onEpochEnd app_callbacks ep n lg w = emit (EpochEnd ep n lg) w"
  by (simp add: call_onEpochEnd_def app_callbacks_def app_onEpochEnd_def)

lemma emit_fields [simp]:
  "trace (emit e w) = trace w @ [e]"
  "shouldStop (emit e w) = shouldStop w"
  "isPaused (emit e w) = isPaused w"
  "frame w (emit e w)"
  by (simp_all add: emit_def frame_def)

lemma frame_currentEpoch [simp]: "frame w (w\<lparr>currentEpoch := ep\<rparr>)"
  by (simp add: frame_def)

lemma loop_stop:
  "epoch_loop app_callbacks fit n ep sched w = (ex, w') \<Longrightarrow>
   \<exists>es. trace w' = trace w @ es
     \<and> (shouldStop w' \<longleftrightarrow> shouldStop w \<or> Called StopTraining \<in> set es)
     \<and> (shouldStop w \<longrightarrow> es = [])
     \<and> quiet_after_stop es
     \<and> (\<forall>e p s. FitCall e p s \<in> set es \<longrightarrow> \<not> p \<and> \<not> s)
     \<and> (ex = Parked \<longrightarrow> isPaused w' \<and> \<not> shouldStop w')
     \<and> frame w w'"
proof (induction "n - ep" arbitrary: ep sched w)
  case 0
  then have "epoch_loop app_callbacks fit n ep sched w = (Exited, w)"
    by (intro epoch_loop_done) simp
  with 0 show ?case by auto
next
  case (Suc m)
  show ?case
  proof (cases "shouldStop w")
    case True
    then have "epoch_loop app_callbacks fit n ep sched w = (Exited, w)"
      by (intro epoch_loop_done) simp
    with Suc.prems show ?thesis by auto
  next
    case False
    from Suc.hyps(2) have lt: "ep < n" by simp
    obtain p sched1 w1 where wp: "wait_paused sched (w\<lparr>currentEpoch := ep\<rparr>) = (p, sched1, w1)"
      by (cases "wait_paused sched (w\<lparr>currentEpoch := ep\<rparr>)") auto
    from wait_paused_spec [OF wp] obtain cs where
      w1: "w1 = perform_all cs (w\<lparr>currentEpoch := ep\<rparr>)" and p: "p \<longleftrightarrow> isPaused w1 \<and> \<not> shouldStop w1"
      by blast
    have tr1: "trace w1 = trace w @ map Called cs" and st1: "shouldStop w1 \<longleftrightarrow> StopTraining \<in> set cs"
      and fr1: "frame w w1"
      using w1 False frame_trans [OF frame_currentEpoch perform_all_frame] by auto
    note step = epoch_loop_step [OF lt False wp, of app_callbacks fit]
    show ?thesis
    proof (cases "p \<or> shouldStop w1")
      case True
      with step Suc.prems have "w' = w1" and "ex = Parked \<longleftrightarrow> p" by (auto split: if_splits)
      with tr1 st1 fr1 p False show ?thesis
        by (intro exI [of _ "map Called cs"]) (auto simp: quiet_if_silent)
    next
      case stay: False
      define w2 where "w2 = perform_all (fst (next_tick sched1))
                           (emit (FitCall ep (isPaused w1) (shouldStop w1)) w1)"
      define as where "as = fst (next_tick sched1)"
      from stay p have np: "\<not> isPaused w1" "\<not> shouldStop w1" "\<not> p" by auto
      have tr2: "trace w2 = trace w @ map Called cs @ FitCall ep False False # map Called as"
        and st2: "shouldStop w2 \<longleftrightarrow> StopTraining \<in> set as" and fr2: "frame w w2"
        using tr1 st1 np frame_trans [OF fr1 frame_trans [OF emit_fields(4) perform_all_frame]]
        by (auto simp: w2_def as_def)
      have nos: "Called StopTraining \<notin> set (map Called cs)" using st1 np by auto
      show ?thesis
      proof (cases "fit ep")
        case (Inl err)
        with step np Suc.prems have "w' = w2" "ex = Thrown err" by (auto simp: w2_def)
        with tr2 st2 fr2 False nos show ?thesis
          by (intro exI [of _ "map Called cs @ FitCall ep False False # map Called as"])
             (auto simp: quiet_skip quiet_if_silent)
      next
        case (Inr lg)
        with step np Suc.prems have
          rec: "epoch_loop app_callbacks fit n (Suc ep) (snd (next_tick sched1)) (emit (EpochEnd ep n lg) w2) = (ex, w')"
          by (auto simp: w2_def)
        have "m = n - Suc ep" using Suc.hyps(2) by simp
        from Suc.hyps(1) [OF this rec] obtain es where
          es: "trace w' = trace (emit (EpochEnd ep n lg) w2) @ es"
            "shouldStop w' \<longleftrightarrow> shouldStop (emit (EpochEnd ep n lg) w2) \<or> Called StopTraining \<in> set es"
            "shouldStop (emit (EpochEnd ep n lg) w2) \<longrightarrow> es = []"
            "quiet_after_stop es"
            "\<forall>e p s. FitCall e p s \<in> set es \<longrightarrow> \<not> p \<and> \<not> s"
            "ex = Parked \<longrightarrow> isPaused w' \<and> \<not> shouldStop w'"
            "frame (emit (EpochEnd ep n lg) w2) w'"
          by blast
        have fr: "frame w w'"
          using frame_trans [OF fr2 frame_trans [OF emit_fields(4) es(7)]] .
        have q: "quiet_after_stop (map Called cs @ FitCall ep False False # map Called as @ EpochEnd ep n lg # es)"
        proof (cases "StopTraining \<in> set as")
          case True
          with es(3) st2 have "es = []" by simp
          with nos show ?thesis by (simp add: quiet_skip quiet_if_silent)
        next
          case False
          then have "Called StopTraining \<notin> set (map Called cs @ FitCall ep False False # map Called as @ [EpochEnd ep n lg])"
            using nos by auto
          from quiet_skip [OF this, of es] es(4) show ?thesis by simp
        qed
        have "StopTraining \<notin> set cs" using st1 np by simp
        then show ?thesis
          using es tr2 st2 fr q False
          by (intro exI [of _ "map Called cs @ FitCall ep False False # map Called as @ EpochEnd ep n lg # es"])
             auto
      qed
    qed
  qed
qed


lemma loop_struct:
  "epoch_loop app_callbacks fit n ep sched w = (ex, w') \<Longrightarrow> ep \<le> n \<Longrightarrow>
   \<exists>k. ep \<le> k \<and> k \<le> n \<and> (\<forall>i. ep \<le> i \<and> i < k \<longrightarrow> (\<exists>lg. fit i = Inr lg))
     \<and> filter is_callback (trace w') =
         filter is_callback (trace w) @ map (\<lambda>i. EpochEnd i n (projr (fit i))) [ep..<k]
     \<and> (case ex of
           Thrown e \<Rightarrow> k < n \<and> fit k = Inl e
             \<and> fit_epochs (trace w') = fit_epochs (trace w) @ [ep..<Suc k]
         | Exited \<Rightarrow> (k = n \<or> shouldStop w')
             \<and> fit_epochs (trace w') = fit_epochs (trace w) @ [ep..<k]
         | Parked \<Rightarrow> k < n \<and> fit_epochs (trace w') = fit_epochs (trace w) @ [ep..<k])"
proof (induction "n - ep" arbitrary: ep sched w)
  case 0
  then have "ep = n" by simp
  then have "epoch_loop app_callbacks fit n ep sched w = (Exited, w)"
    by (intro epoch_loop_done) simp
  with 0 \<open>ep = n\<close> show ?case by (intro exI [of _ n]) auto
next
  case (Suc m)
  from Suc.hyps(2) have lt: "ep < n" by simp
  show ?case
  proof (cases "shouldStop w")
    case True
    then have "epoch_loop app_callbacks fit n ep sched w = (Exited, w)"
      by (intro epoch_loop_done) simp
    with Suc.prems True show ?thesis by (intro exI [of _ ep]) auto
  next
    case False
    obtain p sched1 w1 where wp: "wait_paused sched (w\<lparr>currentEpoch := ep\<rparr>) = (p, sched1, w1)"
      by (cases "wait_paused sched (w\<lparr>currentEpoch := ep\<rparr>)") auto
    from wait_paused_spec [OF wp] obtain cs where
      w1: "w1 = perform_all cs (w\<lparr>currentEpoch := ep\<rparr>)" by blast
    have tr1: "trace w1 = trace w @ map Called cs" using w1 by simp
    note step = epoch_loop_step [OF lt False wp, of app_callbacks fit]
    show ?thesis
    proof (cases "p \<or> shouldStop w1")
      case True
      with step Suc.prems have "w' = w1" and "ex = Parked \<or> ex = Exited \<and> shouldStop w1"
        by (auto split: if_splits)
      with tr1 lt show ?thesis by (intro exI [of _ ep]) auto
    next
      case stay: False
      define w2 where "w2 = perform_all (fst (next_tick sched1))
                           (emit (FitCall ep (isPaused w1) (shouldStop w1)) w1)"
      have tr2: "filter is_callback (trace w2) = filter is_callback (trace w)"
         "fit_epochs (trace w2) = fit_epochs (trace w) @ [ep]"
        using tr1 by (simp_all add: w2_def)
      show ?thesis
      proof (cases "fit ep")
        case (Inl err)
        with step stay Suc.prems have "w' = w2" "ex = Thrown err" by (auto simp: w2_def)
        with tr2 lt Inl show ?thesis by (intro exI [of _ ep]) auto
      next
        case (Inr lg)
        with step stay Suc.prems have
          rec: "epoch_loop app_callbacks fit n (Suc ep) (snd (next_tick sched1)) (emit (EpochEnd ep n lg) w2) = (ex, w')"
          by (auto simp: w2_def)
        have "m = n - Suc ep" and "Suc ep \<le> n" using Suc.hyps(2) by simp_all
        from Suc.hyps(1) [OF this(1) rec this(2)] obtain k where
          k: "Suc ep \<le> k" "k \<le> n" "\<forall>i. Suc ep \<le> i \<and> i < k \<longrightarrow> (\<exists>lg. fit i = Inr lg)"
           "filter is_callback (trace w') =
              filter is_callback (trace (emit (EpochEnd ep n lg) w2))
              @ map (\<lambda>i. EpochEnd i n (projr (fit i))) [Suc ep..<k]"
           "(case ex of
               Thrown e \<Rightarrow> k < n \<and> fit k = Inl e
                 \<and> fit_epochs (trace w') = fit_epochs (trace (emit (EpochEnd ep n lg) w2)) @ [Suc ep..<Suc k]
             | Exited \<Rightarrow> (k = n \<or> shouldStop w')
                 \<and> fit_epochs (trace w') = fit_epochs (trace (emit (EpochEnd ep n lg) w2)) @ [Suc ep..<k]
             | Parked \<Rightarrow> k < n \<and> fit_epochs (trace w') = fit_epochs (trace (emit (EpochEnd ep n lg) w2)) @ [Suc ep..<k])"
          by blast
        have all: "\<forall>i. ep \<le> i \<and> i < k \<longrightarrow> (\<exists>lg. fit i = Inr lg)"
        proof (intro allI impI)
          fix i assume "ep \<le> i \<and> i < k"
          then have "i = ep \<or> Suc ep \<le> i \<and> i < k" by auto
          with Inr k(3) show "\<exists>lg. fit i = Inr lg" by auto
        qed
        have up: "[ep..<k] = ep # [Suc ep..<k]" "[ep..<Suc k] = ep # [Suc ep..<Suc k]"
          using k(1) by (simp_all add: upt_conv_Cons)
        have cb: "filter is_callback (trace w') =
           filter is_callback (trace w) @ map (\<lambda>i. EpochEnd i n (projr (fit i))) [ep..<k]"
          using k(4) tr2 Inr by (simp add: up)
        have ex: "(case ex of
           Thrown e \<Rightarrow> k < n \<and> fit k = Inl e
             \<and> fit_epochs (trace w') = fit_epochs (trace w) @ [ep..<Suc k]
         | Exited \<Rightarrow> (k = n \<or> shouldStop w')
             \<and> fit_epochs (trace w') = fit_epochs (trace w) @ [ep..<k]
         | Parked \<Rightarrow> k < n \<and> fit_epochs (trace w') = fit_epochs (trace w) @ [ep..<k])"
          using k(1,5) tr2 by (cases ex) (simp_all add: up)
        from k(1,2) all cb ex show ?thesis by (intro exI [of _ k]) auto
      qed
    qed
  qed
qed

lemma quiet_snoc:
  "quiet_after_stop es \<Longrightarrow> fit_epochs [e] = [] \<Longrightarrow> \<not> is_EpochEnd e \<Longrightarrow> quiet_after_stop (es @ [e])"
  by (induction es) auto

lemma dispose_fields [simp]:
  "xs_disposed (dispose_tensors w) = Suc (xs_disposed w)"
  "ys_disposed (dispose_tensors w) = Suc (ys_disposed w)"
  "trace (dispose_tensors w) = trace w"
  "shouldStop (dispose_tensors w) = shouldStop w"
  "isPaused (dispose_tensors w) = isPaused w"
  "isTraining (dispose_tensors w) = isTraining w"
  "state_isTraining (dispose_tensors w) = state_isTraining w"
  "allocated (dispose_tensors w) = allocated w"
  by (simp_all add: dispose_tensors_def)

lemma showToast_fields [simp]:
  "xs_disposed (showToast m k w) = xs_disposed w"
  "ys_disposed (showToast m k w) = ys_disposed w"
  "trace (showToast m k w) = trace w"
  "shouldStop (showToast m k w) = shouldStop w"
  "isPaused (showToast m k w) = isPaused w"
  "isTraining (showToast m k w) = isTraining w"
  "state_isTraining (showToast m k w) = state_isTraining w"
  "allocated (showToast m k w) = allocated w"
  by (simp_all add: showToast_def)

lemma call_onTrainingEnd_app:
  "call_onTrainingEnd app_callbacks b w = w' \<Longrightarrow>
   trace w' = trace w @ [TrainingEnd b] \<and> shouldStop w' = shouldStop w
   \<and> isPaused w' = isPaused w \<and> isTraining w' = isTraining w \<and> \<not> state_isTraining w'
   \<and> xs_disposed w' = Suc (xs_disposed w) \<and> ys_disposed w' = Suc (ys_disposed w)
   \<and> allocated w' = allocated w"
  by (cases b) (auto simp: call_onTrainingEnd_def app_callbacks_def app_onTrainingEnd_def emit_def Let_def)

lemma train_catch_app:
  "train_catch app_callbacks err w = (out, w') \<Longrightarrow>
   out = Threw err \<and> trace w' = trace w @ [TrainingError err] \<and> shouldStop w' = shouldStop w
   \<and> isPaused w' = isPaused w \<and> \<not> isTraining w' \<and> \<not> state_isTraining w'
   \<and> xs_disposed w' = Suc (xs_disposed w) \<and> ys_disposed w' = Suc (ys_disposed w)
   \<and> allocated w' = allocated w"
  by (auto simp: train_catch_def call_onTrainingError_def app_callbacks_def
      app_onTrainingError_def emit_def)


lemma train_stop:
  assumes "train app_callbacks build fit ps sched w = (out, w')"
  shows "\<exists>es. trace w' = trace w @ es
     \<and> (shouldStop w' \<longleftrightarrow> Called StopTraining \<in> set es)
     \<and> quiet_after_stop es
     \<and> (\<forall>e p s. FitCall e p s \<in> set es \<longrightarrow> \<not> p \<and> \<not> s)
     \<and> (out = Waiting \<longrightarrow> isPaused w' \<and> \<not> shouldStop w'
           \<and> xs_disposed w' = xs_disposed w \<and> ys_disposed w' = ys_disposed w)
     \<and> (\<forall>b. out = Returned b \<longrightarrow> b = (\<not> shouldStop w'))
     \<and> (out \<noteq> Waiting \<longrightarrow> xs_disposed w' = Suc (xs_disposed w)
           \<and> ys_disposed w' = Suc (ys_disposed w) \<and> \<not> isTraining w' \<and> \<not> state_isTraining w')
     \<and> allocated w' = allocated w"
proof -
  define w1 where "w1 = w\<lparr>isTraining := True, isPaused := False, shouldStop := False,
                   currentEpoch := 0\<rparr>"
  define as where "as = fst (next_tick sched)"
  define w2 where "w2 = perform_all as w1"
  have tr2: "trace w2 = trace w @ map Called as" and st2: "shouldStop w2 \<longleftrightarrow> StopTraining \<in> set as"
    by (simp_all add: w2_def w1_def)
  have "frame w1 w2" by (simp add: w2_def)
  then have fr2: "xs_disposed w2 = xs_disposed w" "ys_disposed w2 = ys_disposed w"
    "allocated w2 = allocated w"
    by (simp_all add: frame_def w1_def)
  show ?thesis
  proof (cases build)
    case (Some err)
    with assms have "train_catch app_callbacks err w2 = (out, w')"
      by (simp add: train_def w2_def w1_def as_def)
    from train_catch_app [OF this] tr2 st2 fr2 show ?thesis
      by (intro exI [of _ "map Called as @ [TrainingError err]"])
         (auto intro!: quiet_if_silent)
  next
    case None
    obtain ex w3 where loop: "epoch_loop app_callbacks fit (epochs ps) 0 (snd (next_tick sched)) w2 = (ex, w3)"
      by (cases "epoch_loop app_callbacks fit (epochs ps) 0 (snd (next_tick sched)) w2") auto
    from loop_stop [OF loop] obtain es where
      es: "trace w3 = trace w2 @ es"
        "shouldStop w3 \<longleftrightarrow> shouldStop w2 \<or> Called StopTraining \<in> set es"
        "shouldStop w2 \<longrightarrow> es = []"
        "quiet_after_stop es"
        "\<forall>e p s. FitCall e p s \<in> set es \<longrightarrow> \<not> p \<and> \<not> s"
        "ex = Parked \<longrightarrow> isPaused w3 \<and> \<not> shouldStop w3"
        "frame w2 w3"
      by blast
    have q: "quiet_after_stop (map Called as @ es)"
    proof (cases "StopTraining \<in> set as")
      case True
      with es(3) st2 show ?thesis by (simp add: quiet_if_silent)
    next
      case False
      then have "Called StopTraining \<notin> set (map Called as)" by auto
      from quiet_skip [OF this] es(4) show ?thesis by simp
    qed
    have fr3: "xs_disposed w3 = xs_disposed w" "ys_disposed w3 = ys_disposed w"
      "allocated w3 = allocated w"
      using es(7) fr2 by (simp_all add: frame_def)
    have tr3: "trace w3 = trace w @ map Called as @ es"
      and st3: "shouldStop w3 \<longleftrightarrow> Called StopTraining \<in> set (map Called as @ es)"
      using es(1,2) tr2 st2 by auto
    from assms None loop have res:
      "(out, w') = (case ex of
          Parked \<Rightarrow> (Waiting, w3)
        | Thrown err \<Rightarrow> train_catch app_callbacks err w3
        | Exited \<Rightarrow> (let w4 = call_onTrainingEnd app_callbacks (\<not> shouldStop w3) (w3\<lparr>isTraining := False\<rparr>)
                      in (Returned (\<not> shouldStop w4), w4)))"
      by (simp add: train_def w2_def w1_def as_def)
    show ?thesis
    proof (cases ex)
      case Exited
      define b where "b = (\<not> shouldStop w3)"
      from res Exited have out: "out = Returned (\<not> shouldStop w')"
        and w': "call_onTrainingEnd app_callbacks b (w3\<lparr>isTraining := False\<rparr>) = w'"
        by (simp_all add: Let_def b_def)
      from call_onTrainingEnd_app [OF w'] have
        e: "trace w' = trace w3 @ [TrainingEnd b]" "shouldStop w' = shouldStop w3"
          "\<not> isTraining w'" "\<not> state_isTraining w'"
          "xs_disposed w' = Suc (xs_disposed w3)" "ys_disposed w' = Suc (ys_disposed w3)"
          "allocated w' = allocated w3"
        by simp_all
      have "quiet_after_stop ((map Called as @ es) @ [TrainingEnd b])"
        by (rule quiet_snoc [OF q]) simp_all
      with e tr3 st3 fr3 out es(5) show ?thesis
        by (intro exI [of _ "map Called as @ es @ [TrainingEnd b]"]) auto
    next
      case (Thrown err)
      with res have "train_catch app_callbacks err w3 = (out, w')" by simp
      from train_catch_app [OF this] have
        e: "out = Threw err" "trace w' = trace w3 @ [TrainingError err]" "shouldStop w' = shouldStop w3"
          "\<not> isTraining w'" "\<not> state_isTraining w'"
          "xs_disposed w' = Suc (xs_disposed w3)" "ys_disposed w' = Suc (ys_disposed w3)"
          "allocated w' = allocated w3"
        by simp_all
      have "quiet_after_stop ((map Called as @ es) @ [TrainingError err])"
        by (rule quiet_snoc [OF q]) simp_all
      with e tr3 st3 fr3 es(5) show ?thesis
        by (intro exI [of _ "map Called as @ es @ [TrainingError err]"]) auto
    next
      case Parked
      with res have "out = Waiting" "w' = w3" by simp_all
      with tr3 st3 fr3 es(5,6) q Parked show ?thesis
        by (intro exI [of _ "map Called as @ es"]) auto
    qed
  qed
qed

lemma train_struct:
  assumes "train app_callbacks build fit ps sched w = (out, w')"
  shows "case build of
      Some e \<Rightarrow> out = Threw e \<and> fit_epochs (trace w') = fit_epochs (trace w)
        \<and> filter is_callback (trace w') = filter is_callback (trace w) @ [TrainingError e]
    | None \<Rightarrow> (\<exists>k\<le>epochs ps. (\<forall>i<k. \<exists>lg. fit i = Inr lg)
        \<and> (case out of
             Threw e \<Rightarrow> k < epochs ps \<and> fit k = Inl e
               \<and> fit_epochs (trace w') = fit_epochs (trace w) @ [0..<Suc k]
               \<and> filter is_callback (trace w') = filter is_callback (trace w)
                   @ map (\<lambda>i. EpochEnd i (epochs ps) (projr (fit i))) [0..<k] @ [TrainingError e]
           | Returned b \<Rightarrow> (k = epochs ps \<or> shouldStop w')
               \<and> fit_epochs (trace w') = fit_epochs (trace w) @ [0..<k]
               \<and> filter is_callback (trace w') = filter is_callback (trace w)
                   @ map (\<lambda>i. EpochEnd i (epochs ps) (projr (fit i))) [0..<k] @ [TrainingEnd b]
           | Waiting \<Rightarrow> k < epochs ps
               \<and> fit_epochs (trace w') = fit_epochs (trace w) @ [0..<k]
               \<and> filter is_callback (trace w') = filter is_callback (trace w)
                   @ map (\<lambda>i. EpochEnd i (epochs ps) (projr (fit i))) [0..<k]))"
proof -
  define w1 where "w1 = w\<lparr>isTraining := True, isPaused := False, shouldStop := False,
                   currentEpoch := 0\<rparr>"
  define as where "as = fst (next_tick sched)"
  define w2 where "w2 = perform_all as w1"
  have tr2: "fit_epochs (trace w2) = fit_epochs (trace w)"
    "filter is_callback (trace w2) = filter is_callback (trace w)"
    by (simp_all add: w2_def w1_def)
  show ?thesis
  proof (cases build)
    case (Some err)
    with assms have "train_catch app_callbacks err w2 = (out, w')"
      by (simp add: train_def w2_def w1_def as_def)
    from train_catch_app [OF this] tr2 Some show ?thesis by simp
  next
    case None
    obtain ex w3 where loop: "epoch_loop app_callbacks fit (epochs ps) 0 (snd (next_tick sched)) w2 = (ex, w3)"
      by (cases "epoch_loop app_callbacks fit (epochs ps) 0 (snd (next_tick sched)) w2") auto
    from loop_struct [OF loop] obtain k where
      k: "k \<le> epochs ps" "\<forall>i<k. \<exists>lg. fit i = Inr lg"
        "filter is_callback (trace w3) =
           filter is_callback (trace w2) @ map (\<lambda>i. EpochEnd i (epochs ps) (projr (fit i))) [0..<k]"
        "(case ex of
           Thrown e \<Rightarrow> k < epochs ps \<and> fit k = Inl e
             \<and> fit_epochs (trace w3) = fit_epochs (trace w2) @ [0..<Suc k]
         | Exited \<Rightarrow> (k = epochs ps \<or> shouldStop w3)
             \<and> fit_epochs (trace w3) = fit_epochs (trace w2) @ [0..<k]
         | Parked \<Rightarrow> k < epochs ps \<and> fit_epochs (trace w3) = fit_epochs (trace w2) @ [0..<k])"
      by auto
    from assms None loop have res:
      "(out, w') = (case ex of
          Parked \<Rightarrow> (Waiting, w3)
        | Thrown err \<Rightarrow> train_catch app_callbacks err w3
        | Exited \<Rightarrow> (let w4 = call_onTrainingEnd app_callbacks (\<not> shouldStop w3) (w3\<lparr>isTraining := False\<rparr>)
                      in (Returned (\<not> shouldStop w4), w4)))"
      by (simp add: train_def w2_def w1_def as_def)
    have "case out of
             Threw e \<Rightarrow> k < epochs ps \<and> fit k = Inl e
               \<and> fit_epochs (trace w') = fit_epochs (trace w) @ [0..<Suc k]
               \<and> filter is_callback (trace w') = filter is_callback (trace w)
                   @ map (\<lambda>i. EpochEnd i (epochs ps) (projr (fit i))) [0..<k] @ [TrainingError e]
           | Returned b \<Rightarrow> (k = epochs ps \<or> shouldStop w')
               \<and> fit_epochs (trace w') = fit_epochs (trace w) @ [0..<k]
               \<and> filter is_callback (trace w') = filter is_callback (trace w)
                   @ map (\<lambda>i. EpochEnd i (epochs ps) (projr (fit i))) [0..<k] @ [TrainingEnd b]
           | Waiting \<Rightarrow> k < epochs ps
               \<and> fit_epochs (trace w') = fit_epochs (trace w) @ [0..<k]
               \<and> filter is_callback (trace w') = filter is_callback (trace w)
                   @ map (\<lambda>i. EpochEnd i (epochs ps) (projr (fit i))) [0..<k]"
    proof (cases ex)
      case Exited
      define b where "b = (\<not> shouldStop w3)"
      from res Exited have out: "out = Returned (\<not> shouldStop w')"
        and w': "call_onTrainingEnd app_callbacks b (w3\<lparr>isTraining := False\<rparr>) = w'"
        by (simp_all add: Let_def b_def)
      from call_onTrainingEnd_app [OF w'] have
        e: "trace w' = trace w3 @ [TrainingEnd b]" "shouldStop w' = shouldStop w3"
        by simp_all
      with out have "out = Returned b" by (simp add: b_def)
      with e k(3,4) tr2 Exited show ?thesis by simp
    next
      case (Thrown err)
      with res have "train_catch app_callbacks err w3 = (out, w')" by simp
      from train_catch_app [OF this] have
        e: "out = Threw err" "trace w' = trace w3 @ [TrainingError err]" by simp_all
      with k(3,4) tr2 Thrown show ?thesis by simp
    next
      case Parked
      with res have "out = Waiting" "w' = w3" by simp_all
      with k(3,4) tr2 Parked show ?thesis by simp
    qed
    with k(1,2) None show ?thesis by auto
  qed
qed

lemma handle_session:
  assumes "handleStartTraining fault prepare build fit ps sched w = (Session out, w')"
  shows "\<exists>w4. train app_callbacks build fit ps sched
           (w\<lparr>toasts := toasts w @ [(''Preparing training data...'', ToastInfo)],
              allocated := Suc (allocated w), state_isTraining := True,
              state_isPaused := False\<rparr>) = (out, w4)
     \<and> xs_disposed w' = xs_disposed w4 \<and> ys_disposed w' = ys_disposed w4
     \<and> allocated w' = allocated w4 \<and> trace w' = trace w4"
  using assms
  by (auto simp: handleStartTraining_def Let_def start_catch_def showToast_def
      split: if_splits sum.splits prod.splits outcome.splits)


section \<open>Concrete runs\<close>

lemmas run_defs =
  train_def train_catch_def epoch_loop.simps perform_all_def emit_def
  pauseTraining_def resumeTraining_def stopTraining_def
  call_onEpochEnd_def call_onTrainingEnd_def call_onTrainingError_def
  app_callbacks_def app_onEpochEnd_def app_onTrainingEnd_def app_onTrainingError_def
  dispose_tensors_def showToast_def Let_def fit_ok_def fit_throws_at_def
  initial_world_def sample_params_def

lemma run_completed:
  "train app_callbacks None (fit_ok sample_logs) sample_params
     [ [], [PauseTraining], [ResumeTraining]] initial_world =
   (Returned True,
    initial_world\<lparr>currentEpoch := 2, xs_disposed := 1, ys_disposed := 1,
      trace := [FitCall 0 False False, Called PauseTraining, EpochEnd 0 3 sample_logs,
                Called ResumeTraining,
                FitCall 1 False False, EpochEnd 1 3 sample_logs,
                FitCall 2 False False, EpochEnd 2 3 sample_logs, TrainingEnd True],
      toasts := [(''Training completed successfully!'', ToastSuccess)]\<rparr>)"
  by (simp add: run_defs)

lemma run_failed:
  "train app_callbacks None (fit_throws_at 1 ''boom'' sample_logs) sample_params [] initial_world =
   (Threw ''boom'',
    initial_world\<lparr>currentEpoch := 1, xs_disposed := 1, ys_disposed := 1,
      trace := [FitCall 0 False False, EpochEnd 0 3 sample_logs,
                FitCall 1 False False, TrainingError ''boom''],
      toasts := [(''Training failed: boom'', ToastError)]\<rparr>)"
  by (simp add: run_defs)

lemma run_stopped_while_paused:
  "train app_callbacks None (fit_ok sample_logs) sample_params
     [ [], [PauseTraining], [], [StopTraining, PauseTraining]] initial_world =
   (Returned False,
    initial_world\<lparr>isPaused := True, shouldStop := True, currentEpoch := 1,
      xs_disposed := 1, ys_disposed := 1,
      trace := [FitCall 0 False False, Called PauseTraining, EpochEnd 0 3 sample_logs,
                Called StopTraining, Called PauseTraining, TrainingEnd False],
      toasts := [(''Training stopped'', ToastWarning)]\<rparr>)"
  by (simp add: run_defs)

lemma run_stopped_in_fit:
  "train app_callbacks None (fit_ok sample_logs) sample_params [ [], [StopTraining]]
     initial_world =
   (Returned False,
    initial_world\<lparr>shouldStop := True, xs_disposed := 1, ys_disposed := 1,
      trace := [FitCall 0 False False, Called StopTraining, EpochEnd 0 3 sample_logs,
                TrainingEnd False],
      toasts := [(''Training stopped'', ToastWarning)]\<rparr>)"
  by (simp add: run_defs)

lemma start_failed_in_fit:
  "fst (handleStartTraining no_faults prepare_ok None (fit_throws_at 1 ''boom'' sample_logs)
     sample_params [] ready_world) = Session (Threw ''boom'')"
  by (simp add: handleStartTraining_def getDataSummary_def getClasses_def getAllImages_def
      getImagesByClass_def no_faults_def prepare_ok_def ready_world_def sample_db_def
      start_catch_def run_defs)

section \<open>The claims\<close>

text \<open>
  Claim C1. A run of \<open>train\<close> that returns, during which \<open>stopTraining\<close> was never called,
  has returned \<open>true\<close>; every call of \<open>model.fit\<close> succeeded; the callbacks it invoked are,
  in this order, \<open>onEpochEnd\<close> for the epochs \<open>0, 1, ..., epochs - 1\<close> (each once, each with the
  history entries of that epoch) and then \<open>onTrainingEnd(true)\<close>, once and last.
\<close>

theorem completed_run_reports_every_epoch:
  assumes "train app_callbacks build fit ps sched w = (Returned b, w')"
    and "trace w' = trace w @ es"
    and "Called StopTraining \<notin> set es"
  shows "b \<and> (\<forall>i<epochs ps. \<exists>lg. fit i = Inr lg)
    \<and> filter is_callback es =
        map (\<lambda>i. EpochEnd i (epochs ps) (projr (fit i))) [0..<epochs ps] @ [TrainingEnd True]
    \<and> fit_epochs es = [0..<epochs ps]"
proof -
  from train_stop [OF assms(1)] assms(2,3) have ns: "\<not> shouldStop w'" and b: "b"
    by auto
  from train_struct [OF assms(1)] have "build = None"
    by (cases build) auto
  with train_struct [OF assms(1)] ns obtain k where
    k: "k \<le> epochs ps" "\<forall>i<k. \<exists>lg. fit i = Inr lg" "k = epochs ps"
      "fit_epochs (trace w') = fit_epochs (trace w) @ [0..<k]"
      "filter is_callback (trace w') = filter is_callback (trace w)
         @ map (\<lambda>i. EpochEnd i (epochs ps) (projr (fit i))) [0..<k] @ [TrainingEnd b]"
    by auto
  from k(4,5) assms(2) have "fit_epochs es = [0..<k]"
    and "filter is_callback es =
           map (\<lambda>i. EpochEnd i (epochs ps) (projr (fit i))) [0..<k] @ [TrainingEnd b]"
    by simp_all
  with k(2,3) b show ?thesis by simp
qed

theorem completed_run_reports_every_epoch_witness:
  "train app_callbacks None (fit_ok sample_logs) sample_params
     [ [], [PauseTraining], [ResumeTraining]] initial_world =
   (Returned True,
    initial_world\<lparr>currentEpoch := 2, xs_disposed := 1, ys_disposed := 1,
      trace := [FitCall 0 False False, Called PauseTraining, EpochEnd 0 3 sample_logs,
                Called ResumeTraining,
                FitCall 1 False False, EpochEnd 1 3 sample_logs,
                FitCall 2 False False, EpochEnd 2 3 sample_logs, TrainingEnd True],
      toasts := [(''Training completed successfully!'', ToastSuccess)]\<rparr>)
   \<and> filter is_callback
        [FitCall 0 False False, Called PauseTraining, EpochEnd 0 3 sample_logs,
         Called ResumeTraining,
         FitCall 1 False False, EpochEnd 1 3 sample_logs,
         FitCall 2 False False, EpochEnd 2 3 sample_logs, TrainingEnd True] =
      map (\<lambda>i. EpochEnd i (epochs sample_params) (projr (fit_ok sample_logs i)))
        [0..<epochs sample_params] @ [TrainingEnd True]"
proof -
  let ?es = "[FitCall 0 False False, Called PauseTraining, EpochEnd 0 3 sample_logs,
         Called ResumeTraining,
         FitCall 1 False False, EpochEnd 1 3 sample_logs,
         FitCall 2 False False, EpochEnd 2 3 sample_logs, TrainingEnd True]"
  note run = run_completed
  have tr: "trace (initial_world\<lparr>currentEpoch := 2, xs_disposed := 1, ys_disposed := 1,
      trace := ?es, toasts := [(''Training completed successfully!'', ToastSuccess)]\<rparr>)
      = trace initial_world @ ?es"
    by (simp add: initial_world_def)
  have ns: "Called StopTraining \<notin> set ?es" by simp
  from completed_run_reports_every_epoch [OF run tr ns] run show ?thesis by blast
qed

text \<open>
  Claim C2. When \<open>handleStartTraining\<close> has started a run and the run has ended, by
  returning (completed or stopped) or by an exception (from model creation or from
  \<open>model.fit\<close>), \<open>dispose()\<close> has been called exactly once on \<open>trainingData.xs\<close> and exactly
  once on \<open>trainingData.ys\<close>, the one pair of tensors allocated for the run.
\<close>

theorem tensors_released_once:
  assumes "handleStartTraining fault prepare build fit ps sched w = (Session out, w')"
    and "out \<noteq> Waiting"
  shows "xs_disposed w' = Suc (xs_disposed w) \<and> ys_disposed w' = Suc (ys_disposed w)
    \<and> allocated w' = Suc (allocated w)"
proof -
  from handle_session [OF assms(1)] obtain w4 where
    h: "train app_callbacks build fit ps sched
           (w\<lparr>toasts := toasts w @ [(''Preparing training data...'', ToastInfo)],
              allocated := Suc (allocated w), state_isTraining := True,
              state_isPaused := False\<rparr>) = (out, w4)"
      "xs_disposed w' = xs_disposed w4" "ys_disposed w' = ys_disposed w4"
      "allocated w' = allocated w4"
    by blast
  from train_stop [OF h(1)] assms(2) h(2-) show ?thesis by auto
qed

theorem tensors_released_once_witness:
  "fst (handleStartTraining no_faults prepare_ok None (fit_throws_at 1 ''boom'' sample_logs)
          sample_params [] ready_world) = Session (Threw ''boom'')
   \<and> Threw ''boom'' \<noteq> Waiting
   \<and> xs_disposed (snd (handleStartTraining no_faults prepare_ok None
          (fit_throws_at 1 ''boom'' sample_logs) sample_params [] ready_world)) =
       Suc (xs_disposed ready_world)
   \<and> ys_disposed (snd (handleStartTraining no_faults prepare_ok None
          (fit_throws_at 1 ''boom'' sample_logs) sample_params [] ready_world)) =
       Suc (ys_disposed ready_world)"
proof -
  let ?h = "handleStartTraining no_faults prepare_ok None (fit_throws_at 1 ''boom'' sample_logs)
          sample_params [] ready_world"
  have ex: "fst ?h = Session (Threw ''boom'')" by (rule start_failed_in_fit)
  then have run: "?h = (Session (Threw ''boom''), snd ?h)" by (metis prod.collapse)
  have nw: "Threw ''boom'' \<noteq> Waiting" by simp
  from tensors_released_once [OF run nw] ex show ?thesis by simp
qed

text \<open>
  Claim C3, as amended. While \<open>state.isTraining\<close> is set, \<open>handleStartTraining\<close> returns at
  its guard: it raises and reports no error and leaves every part of the state as it
  was. The guard is in the handler only; \<open>ModelManager.train\<close> has none.
\<close>

theorem start_ignored_while_training:
  "state_isTraining w \<Longrightarrow>
   handleStartTraining fault prepare build fit ps sched w = (Ignored, w)"
  by (simp add: handleStartTraining_def)

theorem start_ignored_while_training_witness:
  "state_isTraining paused_session
   \<and> handleStartTraining no_faults prepare_ok None (fit_ok sample_logs) sample_params []
       paused_session = (Ignored, paused_session)"
proof -
  have t: "state_isTraining paused_session" by (simp add: paused_session_def)
  from start_ignored_while_training [OF t] t show ?thesis by simp
qed

text \<open>
  The claim as stated fails: started on a running, paused session the handler ends at
  its guard, with no error and no message; and \<open>train\<close> called on that session does not
  fail either, it returns \<open>true\<close> and has cleared the pause flag and restarted the epoch
  index on the way.
\<close>

theorem start_while_training_no_error:
  "fst (handleStartTraining no_faults prepare_ok None (fit_ok sample_logs) sample_params []
          paused_session) = Ignored
   \<and> toasts (snd (handleStartTraining no_faults prepare_ok None (fit_ok sample_logs)
          sample_params [] paused_session)) = []
   \<and> fst (train app_callbacks None (fit_ok sample_logs) sample_params [] paused_session)
       = Returned True
   \<and> isPaused paused_session
   \<and> \<not> isPaused (snd (train app_callbacks None (fit_ok sample_logs) sample_params []
          paused_session))
   \<and> currentEpoch paused_session = 1
   \<and> fit_epochs (trace (snd (train app_callbacks None (fit_ok sample_logs) sample_params []
          paused_session))) = [0, 1, 2]"
  by (simp add: handleStartTraining_def paused_session_def ready_world_def run_defs)

text \<open>
  Claim C4. In every run, whatever is called while it is suspended, each call of
  \<open>model.fit\<close> is made with the pause flag and the stop flag both clear. When
  \<open>stopTraining\<close> has been called the run does not stay in the pause loop, and no call of
  \<open>model.fit\<close> follows the call of \<open>stopTraining\<close>. With both a pause and a stop requested,
  in either order, the pause loop is left at once, without waiting.
\<close>

theorem paused_epoch_never_begins:
  assumes "train app_callbacks build fit ps sched w = (out, w')"
    and "trace w' = trace w @ es"
  shows "(\<forall>ep p s. FitCall ep p s \<in> set es \<longrightarrow> \<not> p \<and> \<not> s)
    \<and> (Called StopTraining \<in> set es \<longrightarrow> out \<noteq> Waiting
         \<and> (\<forall>pre post. es = pre @ Called StopTraining # post \<longrightarrow> fit_epochs post = []))
    \<and> wait_paused sched' (stopTraining (pauseTraining v))
        = (False, sched', stopTraining (pauseTraining v))
    \<and> wait_paused sched' (pauseTraining (stopTraining v))
        = (False, sched', pauseTraining (stopTraining v))"
proof -
  from train_stop [OF assms(1)] assms(2) have
    a: "shouldStop w' \<longleftrightarrow> Called StopTraining \<in> set es" "quiet_after_stop es"
      "\<forall>e p s. FitCall e p s \<in> set es \<longrightarrow> \<not> p \<and> \<not> s"
      "out = Waiting \<longrightarrow> \<not> shouldStop w'"
    by auto
  have "\<forall>pre post. es = pre @ Called StopTraining # post \<longrightarrow> fit_epochs post = []"
    using a(2) quiet_after_any_stop by blast
  moreover have "wait_paused sched' (stopTraining (pauseTraining v))
        = (False, sched', stopTraining (pauseTraining v))"
    by (cases sched') (simp_all add: stopTraining_def pauseTraining_def)
  moreover have "wait_paused sched' (pauseTraining (stopTraining v))
        = (False, sched', pauseTraining (stopTraining v))"
    by (cases sched') (simp_all add: stopTraining_def pauseTraining_def)
  ultimately show ?thesis using a by auto
qed

theorem paused_epoch_never_begins_witness:
  "train app_callbacks None (fit_ok sample_logs) sample_params
     [ [], [PauseTraining], [], [StopTraining, PauseTraining]] initial_world =
   (Returned False,
    initial_world\<lparr>isPaused := True, shouldStop := True, currentEpoch := 1,
      xs_disposed := 1, ys_disposed := 1,
      trace := [FitCall 0 False False, Called PauseTraining, EpochEnd 0 3 sample_logs,
                Called StopTraining, Called PauseTraining, TrainingEnd False],
      toasts := [(''Training stopped'', ToastWarning)]\<rparr>)
   \<and> FitCall 0 False False \<in> set
        [FitCall 0 False False, Called PauseTraining, EpochEnd 0 3 sample_logs,
         Called StopTraining, Called PauseTraining, TrainingEnd False]
   \<and> Called StopTraining \<in> set
        [FitCall 0 False False, Called PauseTraining, EpochEnd 0 3 sample_logs,
         Called StopTraining, Called PauseTraining, TrainingEnd False]
   \<and> Returned False \<noteq> Waiting
   \<and> fit_epochs [Called PauseTraining, TrainingEnd False] = []"
proof -
  let ?es = "[FitCall 0 False False, Called PauseTraining, EpochEnd 0 3 sample_logs,
         Called StopTraining, Called PauseTraining, TrainingEnd False]"
  note run = run_stopped_while_paused
  have tr: "trace (initial_world\<lparr>isPaused := True, shouldStop := True, currentEpoch := 1,
      xs_disposed := 1, ys_disposed := 1, trace := ?es,
      toasts := [(''Training stopped'', ToastWarning)]\<rparr>) = trace initial_world @ ?es"
    by (simp add: initial_world_def)
  have split: "?es = [FitCall 0 False False, Called PauseTraining, EpochEnd 0 3 sample_logs]
      @ Called StopTraining # [Called PauseTraining, TrainingEnd False]"
    by simp
  have mem: "FitCall 0 False False \<in> set ?es" "Called StopTraining \<in> set ?es" by simp_all
  from paused_epoch_never_begins [OF run tr] split mem run show ?thesis by blast
qed

text \<open>
  Claim C5. Once \<open>stopTraining\<close> has been called during a run, the run ends (it does not
  stay in the pause loop), it does not end as completed, the stop flag is still set at
  the end, no call of \<open>model.fit\<close> follows the call of \<open>stopTraining\<close>, and at most one
  \<open>onEpochEnd\<close> follows it: that of the epoch whose \<open>model.fit\<close> was under way.
\<close>

theorem no_epoch_after_stop:
  assumes "train app_callbacks build fit ps sched w = (out, w')"
    and "trace w' = trace w @ pre @ Called StopTraining # post"
  shows "out \<noteq> Waiting \<and> out \<noteq> Returned True \<and> shouldStop w'
    \<and> fit_epochs post = [] \<and> length (filter is_EpochEnd post) \<le> 1"
proof -
  from train_stop [OF assms(1)] assms(2) have
    a: "shouldStop w'" "quiet_after_stop (pre @ Called StopTraining # post)"
      "out = Waiting \<longrightarrow> \<not> shouldStop w'" "\<forall>b. out = Returned b \<longrightarrow> b = (\<not> shouldStop w')"
    by auto
  from quiet_after_any_stop [OF a(2)] a(1,3,4) show ?thesis by auto
qed

theorem no_epoch_after_stop_witness:
  "train app_callbacks None (fit_ok sample_logs) sample_params [ [], [StopTraining]]
     initial_world =
   (Returned False,
    initial_world\<lparr>shouldStop := True, xs_disposed := 1, ys_disposed := 1,
      trace := [FitCall 0 False False, Called StopTraining, EpochEnd 0 3 sample_logs,
                TrainingEnd False],
      toasts := [(''Training stopped'', ToastWarning)]\<rparr>)
   \<and> Returned False \<noteq> Waiting \<and> Returned False \<noteq> Returned True
   \<and> fit_epochs [EpochEnd 0 3 sample_logs, TrainingEnd False] = []
   \<and> length (filter is_EpochEnd [EpochEnd 0 3 sample_logs, TrainingEnd False]) \<le> 1"
proof -
  note run = run_stopped_in_fit
  have tr: "trace (initial_world\<lparr>shouldStop := True, xs_disposed := 1, ys_disposed := 1,
      trace := [FitCall 0 False False, Called StopTraining, EpochEnd 0 3 sample_logs,
                TrainingEnd False],
      toasts := [(''Training stopped'', ToastWarning)]\<rparr>) =
    trace initial_world @ [FitCall 0 False False] @ Called StopTraining
      # [EpochEnd 0 3 sample_logs, TrainingEnd False]"
    by (simp add: initial_world_def)
  from no_epoch_after_stop [OF run tr] run show ?thesis by blast
qed

text \<open>
  Claim C6. If \<open>model.fit\<close> is called for epoch \<open>N\<close> and throws \<open>err\<close>, then \<open>train\<close> rethrows
  \<open>err\<close> itself; \<open>model.fit\<close> was called once for each of the epochs \<open>0, ..., N\<close> and for no
  other (no retry, no later epoch); the callbacks invoked are \<open>onEpochEnd\<close> for the epochs
  \<open>0, ..., N - 1\<close> and then \<open>onTrainingError(err)\<close>, once; the tensors have been disposed and
  \<open>isTraining\<close> is clear.
\<close>

theorem fit_error_aborts_run:
  assumes "train app_callbacks build fit ps sched w = (out, w')"
    and "trace w' = trace w @ es"
    and "N \<in> set (fit_epochs es)"
    and "fit N = Inl err"
  shows "out = Threw err \<and> fit_epochs es = [0..<Suc N]
    \<and> filter is_callback es =
        map (\<lambda>i. EpochEnd i (epochs ps) (projr (fit i))) [0..<N] @ [TrainingError err]
    \<and> xs_disposed w' = Suc (xs_disposed w) \<and> ys_disposed w' = Suc (ys_disposed w)
    \<and> \<not> isTraining w'"
proof -
  note st = train_struct [OF assms(1)]
  have fe: "fit_epochs (trace w') = fit_epochs (trace w) @ fit_epochs es"
    and cb: "filter is_callback (trace w') = filter is_callback (trace w) @ filter is_callback es"
    using assms(2) by simp_all
  have none: "build = None"
  proof (cases build)
    case (Some e)
    with st fe assms(3) show ?thesis by simp
  qed simp
  with st obtain k where
    k: "k \<le> epochs ps" "\<forall>i<k. \<exists>lg. fit i = Inr lg"
     "case out of
        Threw e \<Rightarrow> k < epochs ps \<and> fit k = Inl e
          \<and> fit_epochs (trace w') = fit_epochs (trace w) @ [0..<Suc k]
          \<and> filter is_callback (trace w') = filter is_callback (trace w)
              @ map (\<lambda>i. EpochEnd i (epochs ps) (projr (fit i))) [0..<k] @ [TrainingError e]
      | Returned b \<Rightarrow> (k = epochs ps \<or> shouldStop w')
          \<and> fit_epochs (trace w') = fit_epochs (trace w) @ [0..<k]
          \<and> filter is_callback (trace w') = filter is_callback (trace w)
              @ map (\<lambda>i. EpochEnd i (epochs ps) (projr (fit i))) [0..<k] @ [TrainingEnd b]
      | Waiting \<Rightarrow> k < epochs ps
          \<and> fit_epochs (trace w') = fit_epochs (trace w) @ [0..<k]
          \<and> filter is_callback (trace w') = filter is_callback (trace w)
              @ map (\<lambda>i. EpochEnd i (epochs ps) (projr (fit i))) [0..<k]"
    by auto
  have nk: "\<not> N < k" using k(2) assms(4) by auto
  have thr: "\<exists>e. out = Threw e"
  proof (cases out)
    case (Returned b)
    with k(3) fe have "fit_epochs es = [0..<k]" by simp
    with assms(3) nk show ?thesis by simp
  next
    case Waiting
    with k(3) fe have "fit_epochs es = [0..<k]" by simp
    with assms(3) nk show ?thesis by simp
  qed simp
  then obtain e where e: "out = Threw e" by blast
  with k(3) fe cb have
    t: "fit k = Inl e" "fit_epochs es = [0..<Suc k]"
      "filter is_callback es =
         map (\<lambda>i. EpochEnd i (epochs ps) (projr (fit i))) [0..<k] @ [TrainingError e]"
    by simp_all
  from t(2) assms(3) nk have "N = k" by simp
  with t assms(4) have "e = err" by simp
  from train_stop [OF assms(1)] e have
    "xs_disposed w' = Suc (xs_disposed w)" "ys_disposed w' = Suc (ys_disposed w)"
    "\<not> isTraining w'"
    by auto
  with e t \<open>N = k\<close> \<open>e = err\<close> show ?thesis by simp
qed

theorem fit_error_aborts_run_witness:
  "train app_callbacks None (fit_throws_at 1 ''boom'' sample_logs) sample_params []
     initial_world =
   (Threw ''boom'',
    initial_world\<lparr>currentEpoch := 1, xs_disposed := 1, ys_disposed := 1,
      trace := [FitCall 0 False False, EpochEnd 0 3 sample_logs,
                FitCall 1 False False, TrainingError ''boom''],
      toasts := [(''Training failed: boom'', ToastError)]\<rparr>)
   \<and> 1 \<in> set (fit_epochs [FitCall 0 False False, EpochEnd 0 3 sample_logs,
                FitCall 1 False False, TrainingError ''boom''])
   \<and> fit_throws_at 1 ''boom'' sample_logs 1 = Inl ''boom''
   \<and> fit_epochs [FitCall 0 False False, EpochEnd 0 3 sample_logs,
                FitCall 1 False False, TrainingError ''boom''] = [0..<Suc 1]
   \<and> filter is_callback [FitCall 0 False False, EpochEnd 0 3 sample_logs,
                FitCall 1 False False, TrainingError ''boom''] =
       map (\<lambda>i. EpochEnd i (epochs sample_params)
                   (projr (fit_throws_at 1 ''boom'' sample_logs i))) [0..<1]
       @ [TrainingError ''boom'']"
proof -
  let ?es = "[FitCall 0 False False, EpochEnd 0 3 sample_logs,
                FitCall 1 False False, TrainingError ''boom'']"
  note run = run_failed
  have tr: "trace (initial_world\<lparr>currentEpoch := 1, xs_disposed := 1, ys_disposed := 1,
      trace := ?es, toasts := [(''Training failed: boom'', ToastError)]\<rparr>) =
      trace initial_world @ ?es"
    by (simp add: initial_world_def)
  have called: "1 \<in> set (fit_epochs ?es)" by simp
  have throws: "fit_throws_at 1 ''boom'' sample_logs 1 = Inl ''boom''"
    by (simp add: fit_throws_at_def)
  from fit_error_aborts_run [OF run tr called throws] run called throws
  show ?thesis by blast
qed

text \<open>
  Claim C7, as amended. When no session is active and the store holds fewer than 2
  classes or fewer than 4 images, \<open>handleStartTraining\<close> starts nothing. If the store
  answers the summary read, the handler ends with the validation warning (the one about
  classes when there are fewer than 2, the one about images otherwise). If the store
  rejects the read, the handler ends in its \<open>catch\<close> block with the message
  \<open>Failed to start training\<close>. In both cases nothing but the list of shown messages has
  changed: no tensors are allocated, \<open>state.isTraining\<close> is still clear, \<open>train\<close> is not
  entered and no callback is invoked.
\<close>

theorem start_rejected_on_insufficient_data:
  assumes "\<not> state_isTraining w"
    and "length (db_classes (store w)) < 2 \<or> length (db_images (store w)) < 4"
  shows "handleStartTraining fault prepare build fit ps sched w =
      (case getDataSummary fault (store w) of
         Inr s \<Rightarrow>
           (Rejected,
            w\<lparr>toasts := toasts w @
                [(if length (db_classes (store w)) < 2
                  then ''You need at least 2 classes to train''
                  else ''You need at least 4 images to train'', ToastWarning)]\<rparr>)
       | Inl e \<Rightarrow>
           (StartFailed e,
            w\<lparr>toasts := toasts w @ [(''Failed to start training: '' @ e, ToastError)]\<rparr>))
    \<and> (fault OpGetClasses = None \<and> fault OpGetAllImages = None
         \<longrightarrow> fst (handleStartTraining fault prepare build fit ps sched w) = Rejected)
    \<and> allocated (snd (handleStartTraining fault prepare build fit ps sched w)) = allocated w
    \<and> trace (snd (handleStartTraining fault prepare build fit ps sched w)) = trace w
    \<and> \<not> state_isTraining (snd (handleStartTraining fault prepare build fit ps sched w))
    \<and> \<not> isTraining (snd (handleStartTraining fault prepare build fit ps sched w))
         = (\<not> isTraining w)"
proof -
  have same: "w\<lparr>state_isTraining := False\<rparr> = w"
    using assms(1) by (cases w) simp
  have eq: "handleStartTraining fault prepare build fit ps sched w =
      (case getDataSummary fault (store w) of
         Inr s \<Rightarrow>
           (Rejected,
            w\<lparr>toasts := toasts w @
                [(if length (db_classes (store w)) < 2
                  then ''You need at least 2 classes to train''
                  else ''You need at least 4 images to train'', ToastWarning)]\<rparr>)
       | Inl e \<Rightarrow>
           (StartFailed e,
            w\<lparr>toasts := toasts w @ [(''Failed to start training: '' @ e, ToastError)]\<rparr>))"
    using assms same
    by (auto simp: handleStartTraining_def showToast_def start_catch_def getDataSummary_def
        getClasses_def getAllImages_def split: option.splits)
  have ok: "fault OpGetClasses = None \<and> fault OpGetAllImages = None
         \<longrightarrow> fst (handleStartTraining fault prepare build fit ps sched w) = Rejected"
    by (auto simp: eq getDataSummary_def getClasses_def getAllImages_def)
  have fr: "allocated (snd (handleStartTraining fault prepare build fit ps sched w)) = allocated w"
    "trace (snd (handleStartTraining fault prepare build fit ps sched w)) = trace w"
    "\<not> state_isTraining (snd (handleStartTraining fault prepare build fit ps sched w))"
    "\<not> isTraining (snd (handleStartTraining fault prepare build fit ps sched w))
         = (\<not> isTraining w)"
    using assms(1) by (simp_all add: eq split: sum.splits)
  from eq ok fr show ?thesis by blast
qed

theorem start_rejected_on_insufficient_data_witness:
  "\<not> state_isTraining initial_world
   \<and> length (db_classes (store initial_world)) < 2
   \<and> handleStartTraining no_faults prepare_ok None (fit_ok sample_logs) sample_params []
       initial_world =
      (Rejected,
       initial_world\<lparr>toasts := [(''You need at least 2 classes to train'', ToastWarning)]\<rparr>)
   \<and> \<not> state_isTraining
         (ready_world\<lparr>store := sample_db\<lparr>db_images := take 3 (db_images sample_db)\<rparr>\<rparr>)
   \<and> length (db_images (store
         (ready_world\<lparr>store := sample_db\<lparr>db_images := take 3 (db_images sample_db)\<rparr>\<rparr>))) < 4
   \<and> handleStartTraining no_faults prepare_ok None (fit_ok sample_logs) sample_params []
       (ready_world\<lparr>store := sample_db\<lparr>db_images := take 3 (db_images sample_db)\<rparr>\<rparr>) =
      (Rejected,
       ready_world\<lparr>store := sample_db\<lparr>db_images := take 3 (db_images sample_db)\<rparr>,
         toasts := [(''You need at least 4 images to train'', ToastWarning)]\<rparr>)
   \<and> handleStartTraining (failing OpGetAllImages ''AbortError'') prepare_ok None
       (fit_ok sample_logs) sample_params []
       (ready_world\<lparr>store := sample_db\<lparr>db_images := take 3 (db_images sample_db)\<rparr>\<rparr>) =
      (StartFailed ''AbortError'',
       ready_world\<lparr>store := sample_db\<lparr>db_images := take 3 (db_images sample_db)\<rparr>,
         toasts := [(''Failed to start training: AbortError'', ToastError)]\<rparr>)"
proof -
  let ?w = "ready_world\<lparr>store := sample_db\<lparr>db_images := take 3 (db_images sample_db)\<rparr>\<rparr>"
  have idle0: "\<not> state_isTraining initial_world"
    and few0: "length (db_classes (store initial_world)) < 2
      \<or> length (db_images (store initial_world)) < 4"
    and c0: "length (db_classes (store initial_world)) < 2"
    and t0: "toasts initial_world = []"
    by (simp_all add: initial_world_def)
  have idle: "\<not> state_isTraining ?w"
    and few: "length (db_classes (store ?w)) < 2 \<or> length (db_images (store ?w)) < 4"
    and c: "\<not> length (db_classes (store ?w)) < 2" and i: "length (db_images (store ?w)) < 4"
    and c': "length (db_classes sample_db) = 2" and t': "toasts ready_world = []"
    by (simp_all add: ready_world_def initial_world_def sample_db_def)
  have s0: "getDataSummary no_faults (store initial_world) =
      Inr (projr (getDataSummary no_faults (store initial_world)))"
    and s1: "getDataSummary no_faults (store ?w) = Inr (projr (getDataSummary no_faults (store ?w)))"
    and s2: "getDataSummary (failing OpGetAllImages ''AbortError'') (store ?w) = Inl ''AbortError''"
    by (simp_all add: getDataSummary_def getClasses_def getAllImages_def no_faults_def
        failing_def)
  have a: "handleStartTraining no_faults prepare_ok None (fit_ok sample_logs) sample_params []
       initial_world =
      (Rejected,
       initial_world\<lparr>toasts := [(''You need at least 2 classes to train'', ToastWarning)]\<rparr>)"
    using start_rejected_on_insufficient_data
      [OF idle0 few0, of no_faults prepare_ok None "fit_ok sample_logs" sample_params "[]"]
    by (subst (asm) s0) (simp add: c0 t0)
  have b: "handleStartTraining no_faults prepare_ok None (fit_ok sample_logs) sample_params []
       ?w = (Rejected, ?w\<lparr>toasts := [(''You need at least 4 images to train'', ToastWarning)]\<rparr>)"
    using start_rejected_on_insufficient_data
      [OF idle few, of no_faults prepare_ok None "fit_ok sample_logs" sample_params "[]"]
    by (subst (asm) s1) (simp add: c' t')
  have d: "handleStartTraining (failing OpGetAllImages ''AbortError'') prepare_ok None
       (fit_ok sample_logs) sample_params [] ?w =
      (StartFailed ''AbortError'',
       ?w\<lparr>toasts := [(''Failed to start training: AbortError'', ToastError)]\<rparr>)"
    using start_rejected_on_insufficient_data
      [OF idle few, of "failing OpGetAllImages ''AbortError''" prepare_ok None
         "fit_ok sample_logs" sample_params "[]"]
    by (subst (asm) s2) (simp add: c' t')
  from a b d idle0 c0 idle i show ?thesis by simp
qed

text \<open>
  The claim as stated fails: the store of a freshly loaded page holds no class, so
  fewer than 2, yet when the store rejects the read of the classes the handler does not
  end with the validation warning but in its \<open>catch\<close> block, with an error message.
\<close>

theorem start_store_read_failure:
  "\<not> state_isTraining initial_world
   \<and> length (db_classes (store initial_world)) < 2
   \<and> handleStartTraining (failing OpGetClasses ''UnknownError'') prepare_ok None
       (fit_ok sample_logs) sample_params [] initial_world =
      (StartFailed ''UnknownError'',
       initial_world\<lparr>toasts := [(''Failed to start training: UnknownError'', ToastError)]\<rparr>)"
  by (simp add: handleStartTraining_def getDataSummary_def getClasses_def failing_def
      start_catch_def showToast_def initial_world_def)

text \<open>
  Claim C8. \<open>deleteClass\<close> deletes the images of the class first and the class record
  second, in two separate store operations. When it succeeds it returns \<open>true\<close>, and
  neither the class record nor any image with that \<open>classId\<close> is left. Whenever a call,
  completed or not, has removed the class record, the images of the class are gone as
  well. When the second operation fails after the first has succeeded, the class is
  left in the store with no images.
\<close>

theorem deleteClass_cascades:
  assumes "deleteClass fault ident d = (r, d')"
  shows "(\<forall>b. r = Inr b \<longrightarrow>
        b \<and> ident \<notin> cls_id ` set (db_classes d') \<and> ident \<notin> img_classId ` set (db_images d')
        \<and> (\<exists>rs d1. deleteImagesByClass fault ident d = (Inr rs, d1)
              \<and> d' = d1\<lparr>db_classes := filter (\<lambda>c. cls_id c \<noteq> ident) (db_classes d1)\<rparr>))
    \<and> (ident \<in> cls_id ` set (db_classes d) \<and> ident \<notin> cls_id ` set (db_classes d')
        \<longrightarrow> ident \<notin> img_classId ` set (db_images d'))
    \<and> (fault OpGetImagesByClass = None \<and> fault OpDeleteImages = None
        \<and> fault OpDeleteClassRecord = Some e
        \<longrightarrow> r = Inl e \<and> db_classes d' = db_classes d
          \<and> ident \<notin> img_classId ` set (db_images d'))"
  using assms
  by (auto simp: deleteClass_def deleteImagesByClass_def getImagesByClass_def
      split: option.splits sum.splits if_splits prod.splits)

theorem deleteClass_cascades_witness:
  "deleteClass (failing OpDeleteClassRecord ''AbortError'') 1 sample_db =
     (Inl ''AbortError'',
      sample_db\<lparr>db_images := [\<lparr>img_id = 3, img_classId = 2, img_data = ''c''\<rparr>,
                               \<lparr>img_id = 4, img_classId = 2, img_data = ''d''\<rparr>]\<rparr>)
   \<and> failing OpDeleteClassRecord ''AbortError'' OpGetImagesByClass = None
   \<and> failing OpDeleteClassRecord ''AbortError'' OpDeleteImages = None
   \<and> failing OpDeleteClassRecord ''AbortError'' OpDeleteClassRecord = Some ''AbortError''
   \<and> 1 \<notin> img_classId ` set [\<lparr>img_id = 3, img_classId = 2, img_data = ''c''\<rparr>,
                              \<lparr>img_id = 4, img_classId = 2, img_data = ''d''\<rparr>]
   \<and> deleteClass no_faults 1 sample_db =
     (Inr True,
      sample_db\<lparr>db_classes := [\<lparr>cls_id = 2, cls_name = ''dog''\<rparr>],
                db_images := [\<lparr>img_id = 3, img_classId = 2, img_data = ''c''\<rparr>,
                              \<lparr>img_id = 4, img_classId = 2, img_data = ''d''\<rparr>]\<rparr>)
   \<and> 1 \<notin> cls_id ` set [\<lparr>cls_id = 2, cls_name = ''dog''\<rparr>]"
proof -
  let ?rest = "[\<lparr>img_id = 3, img_classId = 2, img_data = ''c''\<rparr>,
                \<lparr>img_id = 4, img_classId = 2, img_data = ''d''\<rparr>]"
  have cut: "deleteClass (failing OpDeleteClassRecord ''AbortError'') 1 sample_db =
     (Inl ''AbortError'', sample_db\<lparr>db_images := ?rest\<rparr>)"
    by (simp add: deleteClass_def deleteImagesByClass_def getImagesByClass_def failing_def
        sample_db_def)
  have ok: "deleteClass no_faults 1 sample_db =
     (Inr True, sample_db\<lparr>db_classes := [\<lparr>cls_id = 2, cls_name = ''dog''\<rparr>],
                          db_images := ?rest\<rparr>)"
    by (simp add: deleteClass_def deleteImagesByClass_def getImagesByClass_def no_faults_def
        sample_db_def)
  have f: "failing OpDeleteClassRecord ''AbortError'' OpGetImagesByClass = None"
    "failing OpDeleteClassRecord ''AbortError'' OpDeleteImages = None"
    "failing OpDeleteClassRecord ''AbortError'' OpDeleteClassRecord = Some ''AbortError''"
    by (simp_all add: failing_def)
  from deleteClass_cascades [OF cut, of "''AbortError''"] deleteClass_cascades [OF ok]
    cut ok f
  show ?thesis by simp
qed

text \<open>
  Claim C9, as amended. When the trimmed name is empty, or equals the name of a class of
  \<open>state.classes\<close> after \<open>toLowerCase()\<close> on both, \<open>handleAddClass\<close> writes nothing to the
  store and leaves the class list as it was. Otherwise it asks the store to add the
  trimmed name: when the store accepts, exactly one class, with the trimmed name and
  the id the store assigned, is appended to the class list and to the store; when the
  store rejects the request, the class list and the store are left as they were.
\<close>

theorem handleAddClass_rejects_duplicates:
  assumes "handleAddClass trim toLowerCase fault raw w = w'"
  shows "(trim raw = []
          \<or> (\<exists>c\<in>set (state_classes w). toLowerCase (cls_name c) = toLowerCase (trim raw))
        \<longrightarrow> store w' = store w \<and> state_classes w' = state_classes w)
    \<and> (trim raw \<noteq> []
          \<and> (\<forall>c\<in>set (state_classes w). toLowerCase (cls_name c) \<noteq> toLowerCase (trim raw))
        \<longrightarrow> (case fault OpAddClass of
               None \<Rightarrow>
                 state_classes w' =
                   state_classes w @ [\<lparr>cls_id = db_next_class (store w), cls_name = trim raw\<rparr>]
                 \<and> db_classes (store w') =
                   db_classes (store w) @ [\<lparr>cls_id = db_next_class (store w), cls_name = trim raw\<rparr>]
             | Some e \<Rightarrow> state_classes w' = state_classes w \<and> store w' = store w))"
  using assms
  by (auto simp: handleAddClass_def Let_def showToast_def addClass_def list_ex_iff
      split: option.splits)

theorem handleAddClass_rejects_duplicates_witness:
  "ascii_trim ''  Cat '' = ''Cat''
   \<and> ascii_toLowerCase ''Cat'' = ascii_toLowerCase (cls_name \<lparr>cls_id = 1, cls_name = ''cat''\<rparr>)
   \<and> state_classes (handleAddClass ascii_trim ascii_toLowerCase no_faults ''  Cat '' ready_world)
       = state_classes ready_world
   \<and> store (handleAddClass ascii_trim ascii_toLowerCase no_faults ''  Cat '' ready_world)
       = store ready_world
   \<and> ascii_trim '' Bird'' = ''Bird''
   \<and> state_classes (handleAddClass ascii_trim ascii_toLowerCase no_faults '' Bird'' ready_world)
       = state_classes ready_world @ [\<lparr>cls_id = 3, cls_name = ''Bird''\<rparr>]"
proof -
  have t1: "ascii_trim ''  Cat '' = ''Cat''" and t2: "ascii_trim '' Bird'' = ''Bird''"
    by code_simp+
  have l1: "ascii_toLowerCase ''Cat'' = ''cat''" and l2: "ascii_toLowerCase ''cat'' = ''cat''"
    and l3: "ascii_toLowerCase ''dog'' = ''dog''" and l4: "ascii_toLowerCase ''Bird'' = ''bird''"
    by code_simp+
  have cs: "state_classes ready_world =
      [\<lparr>cls_id = 1, cls_name = ''cat''\<rparr>, \<lparr>cls_id = 2, cls_name = ''dog''\<rparr>]"
    and nx: "db_next_class (store ready_world) = 3"
    by (simp_all add: ready_world_def sample_db_def initial_world_def)
  have nf: "no_faults OpAddClass = None" by (simp add: no_faults_def)
  from handleAddClass_rejects_duplicates
         [of ascii_trim ascii_toLowerCase no_faults "''  Cat ''" ready_world, OF refl]
       handleAddClass_rejects_duplicates
         [of ascii_trim ascii_toLowerCase no_faults "'' Bird''" ready_world, OF refl]
       t1 t2 l1 l2 l3 l4 cs nx nf
  show ?thesis by simp
qed

text \<open>
  The claim as stated fails: the name \<open>cat\<close> is not empty and the class list is empty, so
  it is no duplicate, yet when the store rejects the request no class is appended.
\<close>

theorem handleAddClass_store_failure:
  "ascii_trim ''cat'' = ''cat''
   \<and> state_classes initial_world = []
   \<and> state_classes (handleAddClass ascii_trim ascii_toLowerCase
        (failing OpAddClass ''QuotaExceededError'') ''cat'' initial_world) = []
   \<and> toasts (handleAddClass ascii_trim ascii_toLowerCase
        (failing OpAddClass ''QuotaExceededError'') ''cat'' initial_world) =
       [(''Failed to add class'', ToastError)]"
proof -
  have t: "ascii_trim ''cat'' = ''cat''" by code_simp
  then show ?thesis
    by (simp add: handleAddClass_def addClass_def failing_def showToast_def initial_world_def)
qed

text \<open>
  Claim C10. In the summary returned by \<open>getDataSummary\<close>, \<open>totalImages\<close> is the number of
  all stored images; the keys of \<open>classCounts\<close> are exactly the ids of the stored classes,
  and the count of a class is the number of images with that \<open>classId\<close>, so an image
  whose \<open>classId\<close> is the id of no class is counted in \<open>totalImages\<close> and in no entry of
  \<open>classCounts\<close>. With two classes and four images that all belong to no class, the two
  validation checks of \<open>handleStartTraining\<close> pass.
\<close>

theorem summary_counts_orphans:
  assumes "getDataSummary fault d = Inr s"
  shows "totalImages s = length (db_images d)
    \<and> numClasses s = length (db_classes d)
    \<and> dom (classCounts s) = cls_id ` set (db_classes d)
    \<and> (\<forall>k\<in>cls_id ` set (db_classes d).
          classCounts s k = Some (length (filter (\<lambda>i. img_classId i = k) (db_images d))))
    \<and> (\<forall>i\<in>set (db_images orphan_db). img_classId i \<notin> cls_id ` set (db_classes orphan_db))
    \<and> fst (handleStartTraining no_faults prepare build fit ps sched orphan_world) \<noteq> Rejected"
proof -
  have general: "totalImages s = length (db_images d) \<and> numClasses s = length (db_classes d)
    \<and> dom (classCounts s) = cls_id ` set (db_classes d)
    \<and> (\<forall>k\<in>cls_id ` set (db_classes d).
          classCounts s k = Some (length (filter (\<lambda>i. img_classId i = k) (db_images d))))"
    using assms
    by (auto simp: getDataSummary_def getClasses_def getAllImages_def init_counts_def
        count_image_fold init_counts_lookup dom_def split: option.splits sum.splits if_splits)
  have orphans: "\<forall>i\<in>set (db_images orphan_db). img_classId i \<notin> cls_id ` set (db_classes orphan_db)"
    by (simp add: orphan_db_def)
  have passes: "fst (handleStartTraining no_faults prepare build fit ps sched orphan_world) \<noteq> Rejected"
    by (auto simp: handleStartTraining_def getDataSummary_def getClasses_def getAllImages_def
        getImagesByClass_def no_faults_def orphan_world_def orphan_db_def initial_world_def
        Let_def split: sum.splits prod.splits outcome.splits)
  from general orphans passes show ?thesis by blast
qed

theorem summary_counts_orphans_witness:
  "totalImages (projr (getDataSummary no_faults orphan_db)) = 4
   \<and> numClasses (projr (getDataSummary no_faults orphan_db)) = 2
   \<and> classCounts (projr (getDataSummary no_faults orphan_db)) 1 = Some 0
   \<and> classCounts (projr (getDataSummary no_faults orphan_db)) 2 = Some 0
   \<and> classCounts (projr (getDataSummary no_faults orphan_db)) 7 = None
   \<and> fst (handleStartTraining no_faults prepare_ok None (fit_ok sample_logs) sample_params []
        orphan_world) \<noteq> Rejected"
proof -
  have sm: "getDataSummary no_faults orphan_db = Inr (projr (getDataSummary no_faults orphan_db))"
    by (simp add: getDataSummary_def getClasses_def getAllImages_def no_faults_def)
  have len: "length (db_images orphan_db) = 4" "length (db_classes orphan_db) = 2"
    and ids: "cls_id ` set (db_classes orphan_db) = {1, 2}"
    and f1: "filter (\<lambda>i. img_classId i = 1) (db_images orphan_db) = []"
    and f2: "filter (\<lambda>i. img_classId i = 2) (db_images orphan_db) = []"
    by (auto simp: orphan_db_def)
  from summary_counts_orphans [OF sm, of prepare_ok None "fit_ok sample_logs" sample_params "[]"]
  have a: "totalImages (projr (getDataSummary no_faults orphan_db)) = length (db_images orphan_db)"
    and b: "numClasses (projr (getDataSummary no_faults orphan_db)) = length (db_classes orphan_db)"
    and c: "dom (classCounts (projr (getDataSummary no_faults orphan_db))) = cls_id ` set (db_classes orphan_db)"
    and e: "\<forall>k\<in>cls_id ` set (db_classes orphan_db).
          classCounts (projr (getDataSummary no_faults orphan_db)) k =
            Some (length (filter (\<lambda>i. img_classId i = k) (db_images orphan_db)))"
    and g: "fst (handleStartTraining no_faults prepare_ok None (fit_ok sample_logs) sample_params []
        orphan_world) \<noteq> Rejected"
    by blast+
  from e ids f1 f2 have
    "classCounts (projr (getDataSummary no_faults orphan_db)) 1 = Some 0"
    "classCounts (projr (getDataSummary no_faults orphan_db)) 2 = Some 0"
    by auto
  moreover have "classCounts (projr (getDataSummary no_faults orphan_db)) 7 = None"
  proof -
    have "(7::nat) \<notin> dom (classCounts (projr (getDataSummary no_faults orphan_db)))"
      using c ids by simp
    then show ?thesis by (simp add: domIff)
  qed
  ultimately show ?thesis using a b g len by simp
qed

end
